theory Spec2Isabelle
  imports Complex_Main "HOL-Library.AList" "HOL-Library.Sublist"
begin

section \<open>Number values\<close>

text \<open>
  A JavaScript number is an IEEE-754 binary64 value. A finite value is kept as the
  rational it denotes; the two zeros are identified (they compare equal, add to the same
  sums and print alike in everything \<^verbatim>\<open>scraper.js\<close> does with them).
\<close>

datatype jsnum = NaN | PosInf | NegInf | Fin rat

function ilog2 :: "int \<Rightarrow> nat" where
  "ilog2 n = (if n < 2 then 0 else Suc (ilog2 (n div 2)))"
  by pat_completeness auto
termination
  by (relation "measure nat") auto

declare ilog2.simps [simp del]

definition pow2 :: "int \<Rightarrow> rat" where
  "pow2 e = (if 0 \<le> e then 2 ^ nat e else 1 / 2 ^ nat (- e))"

text \<open>For \<open>a > 0\<close>, \<open>binade a\<close> is the exponent \<open>e\<close> with \<open>2 ^ e \<le> a < 2 ^ (e + 1)\<close>.\<close>

definition binade :: "rat \<Rightarrow> int" where
  "binade a = (if 1 \<le> a then int (ilog2 \<lfloor>a\<rfloor>)
               else - int (Suc (ilog2 (\<lceil>1 / a\<rceil> - 1))))"

definition round_half_even :: "rat \<Rightarrow> int" where
  "round_half_even q = (let f = \<lfloor>q\<rfloor>; r = q - of_int f in
     if r < 1 / 2 then f else if 1 / 2 < r then f + 1 else if even f then f else f + 1)"

text \<open>
  \<open>rnd x\<close> is the Number value for the real \<open>x\<close>: round to nearest, ties to even, with
  53 significant bits, gradual underflow below \<open>2 ^ - 1022\<close> and overflow to infinity.
  With \<open>e\<close> the binade of \<open>\<bar>x\<bar>\<close>, the rounded magnitude is \<open>m * 2 ^ (e - 52)\<close> for an
  \<open>m\<close> of at most \<open>2 ^ 53\<close>; it reaches \<open>2 ^ 1024\<close>, and overflows, exactly when \<open>e\<close> is
  1024 or more, or \<open>e\<close> is 1023 and \<open>m\<close> is \<open>2 ^ 53\<close>.
\<close>

definition rnd :: "rat \<Rightarrow> jsnum" where
  "rnd x = (if x = 0 then Fin 0 else
     let a = \<bar>x\<bar>;
         e = binade a;
         q = max e (- 1022) - 52;
         m = round_half_even (a / pow2 q)
     in if 1024 \<le> e \<or> (e = 1023 \<and> 2 ^ 53 \<le> m) then (if x < 0 then NegInf else PosInf)
        else Fin (if x < 0 then - (of_int m * pow2 q) else of_int m * pow2 q))"

fun num_neg :: "jsnum \<Rightarrow> jsnum" where
  "num_neg NaN = NaN"
| "num_neg PosInf = NegInf"
| "num_neg NegInf = PosInf"
| "num_neg (Fin a) = Fin (- a)"

fun num_add :: "jsnum \<Rightarrow> jsnum \<Rightarrow> jsnum" where
  "num_add NaN _ = NaN"
| "num_add _ NaN = NaN"
| "num_add PosInf NegInf = NaN"
| "num_add NegInf PosInf = NaN"
| "num_add PosInf _ = PosInf"
| "num_add _ PosInf = PosInf"
| "num_add NegInf _ = NegInf"
| "num_add _ NegInf = NegInf"
| "num_add (Fin a) (Fin b) = rnd (a + b)"

text \<open>
  Division. A zero divisor is taken as \<open>+0\<close>: the only division of the program is by the
  test counter, which starts at \<open>+0\<close> and is only ever incremented.
\<close>

fun num_div :: "jsnum \<Rightarrow> jsnum \<Rightarrow> jsnum" where
  "num_div NaN _ = NaN"
| "num_div _ NaN = NaN"
| "num_div (Fin a) (Fin b) =
     (if b = 0 then (if a = 0 then NaN else if 0 < a then PosInf else NegInf)
      else rnd (a / b))"
| "num_div (Fin a) _ = Fin 0"
| "num_div PosInf (Fin b) = (if 0 \<le> b then PosInf else NegInf)"
| "num_div NegInf (Fin b) = (if 0 \<le> b then NegInf else PosInf)"
| "num_div _ _ = NaN"

text \<open>\<open>num_lt a b\<close> is the comparison \<^verbatim>\<open>a < b\<close> of two numbers: false as soon as one is NaN.\<close>

fun num_lt :: "jsnum \<Rightarrow> jsnum \<Rightarrow> bool" where
  "num_lt NaN _ = False"
| "num_lt _ NaN = False"
| "num_lt (Fin a) (Fin b) = (a < b)"
| "num_lt NegInf NegInf = False"
| "num_lt NegInf _ = True"
| "num_lt _ NegInf = False"
| "num_lt PosInf _ = False"
| "num_lt _ PosInf = True"

section \<open>Strings\<close>

text \<open>
  A string is a list of characters; a \<^typ>\<open>char\<close> stands for a code unit below 256.
\<close>

fun index_of :: "'a \<Rightarrow> 'a list \<Rightarrow> nat" where
  "index_of x [] = 0"
| "index_of x (y # ys) = (if x = y then 0 else Suc (index_of x ys))"

definition is_digit :: "char \<Rightarrow> bool" where
  "is_digit c = (c \<in> set ''0123456789'')"

definition digit_val :: "char \<Rightarrow> int" where
  "digit_val c = int (index_of c ''0123456789'')"

definition digit_char :: "int \<Rightarrow> char" where
  "digit_char d = ''0123456789'' ! nat d"

fun digits_val :: "int \<Rightarrow> string \<Rightarrow> int" where
  "digits_val acc [] = acc"
| "digits_val acc (c # cs) = digits_val (10 * acc + digit_val c) cs"

text \<open>The decimal digits of a non-negative integer.\<close>

function show_int :: "int \<Rightarrow> string" where
  "show_int n = (if n < 10 then [digit_char n] else show_int (n div 10) @ [digit_char (n mod 10)])"
  by pat_completeness auto
termination
  by (relation "measure nat") auto

declare show_int.simps [simp del]

text \<open>The white space and line terminators that \<^verbatim>\<open>String.prototype.trim\<close> removes.\<close>

definition is_space :: "char \<Rightarrow> bool" where
  "is_space c = (c \<in> {CHR 0x09, CHR 0x0A, CHR 0x0B, CHR 0x0C, CHR 0x0D, CHR 0x20, CHR 0xA0})"

definition trim :: "string \<Rightarrow> string" where
  "trim s = rev (dropWhile is_space (rev (dropWhile is_space s)))"

subsection \<open>\<^verbatim>\<open>Number(string)\<close>\<close>

definition pow10 :: "int \<Rightarrow> rat" where
  "pow10 e = (if 0 \<le> e then 10 ^ nat e else 1 / 10 ^ nat (- e))"

definition hex_val :: "char \<Rightarrow> int" where
  "hex_val c = (if c \<in> set ''ABCDEF'' then 10 + int (index_of c ''ABCDEF'')
                else int (index_of c ''0123456789abcdef''))"

fun radix_val :: "int \<Rightarrow> int \<Rightarrow> string \<Rightarrow> int" where
  "radix_val b acc [] = acc"
| "radix_val b acc (c # cs) = radix_val b (b * acc + hex_val c) cs"

text \<open>\<^verbatim>\<open>0x\<close>, \<^verbatim>\<open>0o\<close> and \<^verbatim>\<open>0b\<close> literals: no sign, at least one digit of the radix.\<close>

definition non_decimal :: "string \<Rightarrow> int option" where
  "non_decimal s = (case s of
     z # x # ds \<Rightarrow>
       (if z \<noteq> CHR ''0'' \<or> ds = [] then None
        else if x \<in> set ''xX'' \<and> (\<forall>c \<in> set ds. c \<in> set ''0123456789abcdefABCDEF'')
          then Some (radix_val 16 0 ds)
        else if x \<in> set ''oO'' \<and> (\<forall>c \<in> set ds. c \<in> set ''01234567'')
          then Some (radix_val 8 0 ds)
        else if x \<in> set ''bB'' \<and> (\<forall>c \<in> set ds. c \<in> set ''01'')
          then Some (radix_val 2 0 ds)
        else None)
   | _ \<Rightarrow> None)"

text \<open>The exponent part: empty, or \<^verbatim>\<open>e\<close> with an optionally signed run of digits.\<close>

definition exponent_part :: "string \<Rightarrow> int option" where
  "exponent_part s = (case s of
     [] \<Rightarrow> Some 0
   | e # r \<Rightarrow>
       (if e \<notin> set ''eE'' then None
        else let (neg, ds) = (case r of
                   c # r' \<Rightarrow> if c = CHR ''-'' then (True, r')
                             else if c = CHR ''+'' then (False, r') else (False, r)
                 | [] \<Rightarrow> (False, r))
             in if ds = [] \<or> \<not> (\<forall>c \<in> set ds. is_digit c) then None
                else Some (if neg then - digits_val 0 ds else digits_val 0 ds)))"

text \<open>An unsigned decimal literal: \<^verbatim>\<open>Infinity\<close>, or digits with an optional fraction and exponent.\<close>

definition unsigned_decimal :: "string \<Rightarrow> jsnum" where
  "unsigned_decimal s =
     (if s = ''Infinity'' then PosInf
      else let ip = takeWhile is_digit s; r1 = dropWhile is_digit s;
               dot = (r1 \<noteq> [] \<and> hd r1 = CHR ''.'');
               fp = (if dot then takeWhile is_digit (tl r1) else []);
               r2 = (if dot then dropWhile is_digit (tl r1) else r1)
           in if ip = [] \<and> fp = [] then NaN
              else (case exponent_part r2 of
                      None \<Rightarrow> NaN
                    | Some e \<Rightarrow> rnd (of_int (digits_val 0 (ip @ fp)) * pow10 (e - int (length fp)))))"

definition StringToNumber :: "string \<Rightarrow> jsnum" where
  "StringToNumber s =
     (let t = trim s in
      if t = [] then Fin 0
      else (case non_decimal t of
              Some n \<Rightarrow> rnd (of_int n)
            | None \<Rightarrow>
                if hd t = CHR ''+'' then unsigned_decimal (tl t)
                else if hd t = CHR ''-'' then num_neg (unsigned_decimal (tl t))
                else unsigned_decimal t))"

subsection \<open>\<^verbatim>\<open>Number.prototype.toString\<close> and \<^verbatim>\<open>toFixed\<close>\<close>

text \<open>For \<open>a > 0\<close>, \<open>decade a\<close> is the \<open>n\<close> with \<open>10 ^ (n - 1) \<le> a < 10 ^ n\<close>.\<close>

definition decade :: "rat \<Rightarrow> int" where
  "decade a = (if 1 \<le> a then int (length (show_int \<lfloor>a\<rfloor>))
               else 1 - int (length (show_int (\<lceil>1 / a\<rceil> - 1))))"

text \<open>
  The digit strings \<open>s\<close> of length \<open>k\<close> and exponents \<open>n\<close> for which \<open>s * 10 ^ (n - k)\<close>
  has the Number value \<open>x\<close>, keeping the one nearest to \<open>x\<close>.
\<close>

definition candidates :: "rat \<Rightarrow> int \<Rightarrow> nat \<Rightarrow> (int \<times> int) list" where
  "candidates x n0 k =
     (let f = \<lfloor>x / pow10 (n0 - int k)\<rfloor>;
          err = (\<lambda>(s, n). \<bar>of_int s * pow10 (n - int k) - x\<bar>);
          hits = filter (\<lambda>(s, n). 10 ^ (k - 1) \<le> s \<and> s < 10 ^ k
                                 \<and> rnd (of_int s * pow10 (n - int k)) = Fin x)
                   [(f, n0), (f + 1, n0), (10 ^ (k - 1), n0 + 1)]
      in filter (\<lambda>c. \<forall>d \<in> set hits. err c < err d \<or> (err c = err d \<and> (even (fst c) \<or> c = d)))
           hits)"

function shortest :: "rat \<Rightarrow> int \<Rightarrow> nat \<Rightarrow> int \<times> int \<times> nat" where
  "shortest x n0 k =
     (case candidates x n0 k of
        (s, n) # _ \<Rightarrow> (s, n, k)
      | [] \<Rightarrow> if 21 \<le> k then (\<lfloor>x / pow10 (n0 - int k)\<rfloor>, n0, k) else shortest x n0 (Suc k))"
  by pat_completeness auto
termination
  by (relation "measure (\<lambda>(x, n0, k). 21 - k)") auto

declare shortest.simps [simp del]

definition zeros :: "int \<Rightarrow> string" where
  "zeros n = replicate (nat n) (CHR ''0'')"

definition num_to_string_pos :: "rat \<Rightarrow> string" where
  "num_to_string_pos x =
     (let (s, n, k) = shortest x (decade x) 1; ds = show_int s;
          e = n - 1;
          es = (if e < 0 then ''-'' else ''+'') @ show_int \<bar>e\<bar>
      in if int k \<le> n \<and> n \<le> 21 then ds @ zeros (n - int k)
         else if 0 < n \<and> n \<le> 21 then take (nat n) ds @ ''.'' @ drop (nat n) ds
         else if - 6 < n \<and> n \<le> 0 then ''0.'' @ zeros (- n) @ ds
         else if k = 1 then ds @ ''e'' @ es
         else take 1 ds @ ''.'' @ drop 1 ds @ ''e'' @ es)"

definition num_to_string :: "jsnum \<Rightarrow> string" where
  "num_to_string x = (case x of
     NaN \<Rightarrow> ''NaN''
   | PosInf \<Rightarrow> ''Infinity''
   | NegInf \<Rightarrow> ''-Infinity''
   | Fin v \<Rightarrow> if v = 0 then ''0''
             else if v < 0 then ''-'' @ num_to_string_pos (- v)
             else num_to_string_pos v)"

text \<open>
  \<^verbatim>\<open>x.toFixed(f)\<close>: the integer \<open>n\<close> nearest to \<open>x * 10 ^ f\<close> (the larger one on a tie),
  printed with \<open>f\<close> digits after the point.
\<close>

definition toFixed :: "nat \<Rightarrow> jsnum \<Rightarrow> string" where
  "toFixed f x = (case x of
     NaN \<Rightarrow> ''NaN''
   | PosInf \<Rightarrow> ''Infinity''
   | NegInf \<Rightarrow> ''-Infinity''
   | Fin v \<Rightarrow>
       (let s = (if v < 0 then ''-'' else []); a = \<bar>v\<bar>
        in if pow10 21 \<le> a then s @ num_to_string (Fin a)
           else let n = \<lfloor>a * 10 ^ f + 1 / 2\<rfloor>;
                    m = show_int n;
                    z = (if length m \<le> f then zeros (int (Suc f) - int (length m)) @ m else m)
                in if f = 0 then s @ m
                   else s @ take (length z - f) z @ ''.'' @ drop (length z - f) z))"

section \<open>Values\<close>

text \<open>
  The values the program handles: what \<^verbatim>\<open>JSON.parse\<close> can deliver, the object
  literals \<^verbatim>\<open>fetchAndParse\<close> builds, and \<^verbatim>\<open>undefined\<close> for a property that is
  not there. An object lists each of its properties once.
\<close>

datatype jv =
    JUndefined
  | JNull
  | JBool bool
  | JNum jsnum
  | JStr string
  | JArr "jv list"
  | JObj "(string \<times> jv) list"

text \<open>
  What the program can raise. \<open>Non200\<close> is the \<^verbatim>\<open>Error('Non 200 status from url')\<close> of
  \<^verbatim>\<open>fetchAndParse\<close>; \<open>NetworkError\<close> a rejected \<^verbatim>\<open>fetch\<close>; \<open>BodyError\<close> a rejected
  \<^verbatim>\<open>result.json()\<close>; \<open>StoreError\<close> a failed redis command; \<open>SyntaxError\<close> a failed
  \<^verbatim>\<open>JSON.parse\<close> of a cached text.
\<close>

datatype error = Non200 | NetworkError | BodyError | TypeError | StoreError | SyntaxError

text \<open>The condition of \<^verbatim>\<open>if (v)\<close> and \<^verbatim>\<open>!v\<close>.\<close>

fun truthy :: "jv \<Rightarrow> bool" where
  "truthy JUndefined = False"
| "truthy JNull = False"
| "truthy (JBool b) = b"
| "truthy (JNum n) = (n \<noteq> NaN \<and> n \<noteq> Fin 0)"
| "truthy (JStr s) = (s \<noteq> [])"
| "truthy (JArr xs) = True"
| "truthy (JObj ps) = True"

text \<open>
  Reading one of the properties \<^verbatim>\<open>departments\<close>, \<^verbatim>\<open>tests\<close>, \<^verbatim>\<open>students\<close>,
  none of which a prototype provides: a \<^verbatim>\<open>TypeError\<close> on \<^verbatim>\<open>null\<close> and
  \<^verbatim>\<open>undefined\<close>, the own property of an object, \<^verbatim>\<open>undefined\<close> otherwise.
\<close>

fun get_prop :: "jv \<Rightarrow> string \<Rightarrow> error + jv" where
  "get_prop JUndefined p = Inl TypeError"
| "get_prop JNull p = Inl TypeError"
| "get_prop (JObj ps) p = Inr (case map_of ps p of None \<Rightarrow> JUndefined | Some v \<Rightarrow> v)"
| "get_prop _ p = Inr JUndefined"

text \<open>
  \<^verbatim>\<open>v.forEach(f)\<close> runs over the elements of an array; on any other value there is no
  such method to call.
\<close>

fun elements :: "jv \<Rightarrow> error + jv list" where
  "elements (JArr xs) = Inr xs"
| "elements _ = Inl TypeError"

fun forEach :: "('a \<Rightarrow> 's \<Rightarrow> error + 's) \<Rightarrow> 'a list \<Rightarrow> 's \<Rightarrow> error + 's" where
  "forEach f [] s = Inr s"
| "forEach f (x # xs) s = (case f x s of Inl e \<Rightarrow> Inl e | Inr s' \<Rightarrow> forEach f xs s')"

subsection \<open>Conversions and operators\<close>

text \<open>
  \<^verbatim>\<open>ToString\<close>. An array prints its elements separated by commas, \<^verbatim>\<open>null\<close> and
  \<^verbatim>\<open>undefined\<close> as nothing; an object prints as \<^verbatim>\<open>[object Object]\<close>, unless an own
  property hides \<^verbatim>\<open>toString\<close> with a value that cannot be called.
\<close>

fun ToString :: "jv \<Rightarrow> error + string"
  and join :: "jv list \<Rightarrow> error + string" where
  "ToString JUndefined = Inr ''undefined''"
| "ToString JNull = Inr ''null''"
| "ToString (JBool b) = Inr (if b then ''true'' else ''false'')"
| "ToString (JNum n) = Inr (num_to_string n)"
| "ToString (JStr s) = Inr s"
| "ToString (JArr xs) = join xs"
| "ToString (JObj ps) =
     (if ''toString'' \<in> fst ` set ps then Inl TypeError else Inr ''[object Object]'')"
| "join [] = Inr []"
| "join (x # xs) =
     (case (if x = JUndefined \<or> x = JNull then Inr [] else ToString x) of
        Inl e \<Rightarrow> Inl e
      | Inr s \<Rightarrow>
          if xs = [] then Inr s
          else (case join xs of Inl e \<Rightarrow> Inl e | Inr r \<Rightarrow> Inr (s @ '','' @ r)))"

fun ToPrimitive :: "jv \<Rightarrow> error + jv" where
  "ToPrimitive (JArr xs) = (case ToString (JArr xs) of Inl e \<Rightarrow> Inl e | Inr s \<Rightarrow> Inr (JStr s))"
| "ToPrimitive (JObj ps) = (case ToString (JObj ps) of Inl e \<Rightarrow> Inl e | Inr s \<Rightarrow> Inr (JStr s))"
| "ToPrimitive v = Inr v"

text \<open>\<^verbatim>\<open>ToNumber\<close> and \<^verbatim>\<open>ToString\<close> of a primitive value.\<close>

fun prim_number :: "jv \<Rightarrow> jsnum" where
  "prim_number JNull = Fin 0"
| "prim_number (JBool b) = (if b then Fin 1 else Fin 0)"
| "prim_number (JNum n) = n"
| "prim_number (JStr s) = StringToNumber s"
| "prim_number _ = NaN"

fun prim_string :: "jv \<Rightarrow> string" where
  "prim_string JNull = ''null''"
| "prim_string (JBool b) = (if b then ''true'' else ''false'')"
| "prim_string (JNum n) = num_to_string n"
| "prim_string (JStr s) = s"
| "prim_string _ = ''undefined''"

fun is_string :: "jv \<Rightarrow> bool" where
  "is_string (JStr s) = True"
| "is_string _ = False"

text \<open>Strings compare code unit by code unit.\<close>

fun str_lt :: "string \<Rightarrow> string \<Rightarrow> bool" where
  "str_lt _ [] = False"
| "str_lt [] (y # ys) = True"
| "str_lt (x # xs) (y # ys) =
     (if x = y then str_lt xs ys else (of_char x :: nat) < of_char y)"

text \<open>\<^verbatim>\<open>a + b\<close>: concatenation as soon as one side is a string, addition otherwise.\<close>

definition js_add :: "jv \<Rightarrow> jv \<Rightarrow> error + jv" where
  "js_add a b =
     (case ToPrimitive a of Inl e \<Rightarrow> Inl e | Inr pa \<Rightarrow>
      case ToPrimitive b of Inl e \<Rightarrow> Inl e | Inr pb \<Rightarrow>
        if is_string pa \<or> is_string pb then Inr (JStr (prim_string pa @ prim_string pb))
        else Inr (JNum (num_add (prim_number pa) (prim_number pb))))"

text \<open>\<^verbatim>\<open>a < b\<close> and \<^verbatim>\<open>a > b\<close>.\<close>

definition prim_lt :: "jv \<Rightarrow> jv \<Rightarrow> bool" where
  "prim_lt pa pb =
     (if is_string pa \<and> is_string pb then str_lt (prim_string pa) (prim_string pb)
      else num_lt (prim_number pa) (prim_number pb))"

definition js_lt :: "jv \<Rightarrow> jv \<Rightarrow> error + bool" where
  "js_lt a b =
     (case ToPrimitive a of Inl e \<Rightarrow> Inl e | Inr pa \<Rightarrow>
      case ToPrimitive b of Inl e \<Rightarrow> Inl e | Inr pb \<Rightarrow> Inr (prim_lt pa pb))"

definition js_gt :: "jv \<Rightarrow> jv \<Rightarrow> error + bool" where
  "js_gt a b =
     (case ToPrimitive a of Inl e \<Rightarrow> Inl e | Inr pa \<Rightarrow>
      case ToPrimitive b of Inl e \<Rightarrow> Inl e | Inr pb \<Rightarrow> Inr (prim_lt pb pa))"

text \<open>\<^verbatim>\<open>a / b\<close>.\<close>

definition js_div :: "jv \<Rightarrow> jv \<Rightarrow> error + jsnum" where
  "js_div a b =
     (case ToPrimitive a of Inl e \<Rightarrow> Inl e | Inr pa \<Rightarrow>
      case ToPrimitive b of Inl e \<Rightarrow> Inl e | Inr pb \<Rightarrow>
        Inr (num_div (prim_number pa) (prim_number pb)))"

section \<open>The document tree\<close>

text \<open>
  \<^verbatim>\<open>cheerio.load\<close> turns the HTML text into a tree; the text-to-tree parser is the
  library's and the model starts from its tree. Only what the selectors of
  \<^verbatim>\<open>fetchAndParse\<close> look at is kept: the (lower-case) tag name of an element, its
  children, and the character data of a text node. A comment is to every operation used
  here what a text node without characters is.
\<close>

datatype node = Elem string "node list" | Text string

text \<open>
  \<^verbatim>\<open>.text()\<close> of one node: the character data below it, in document order. What lies
  inside a \<^verbatim>\<open>script\<close> or a \<^verbatim>\<open>style\<close> element is left out.
\<close>

fun node_text :: "node \<Rightarrow> string" where
  "node_text (Text t) = t"
| "node_text (Elem tg ch) =
     (if tg = ''script'' \<or> tg = ''style'' then [] else concat (map node_text ch))"

text \<open>\<^verbatim>\<open>.text()\<close> of a selection: the texts of its members, one after the other.\<close>

definition text_of :: "node list \<Rightarrow> string" where
  "text_of sel = concat (map node_text sel)"

text \<open>
  \<^verbatim>\<open>$('h3')\<close>: every element with that tag, in document order. The model has no parent
  and sibling pointers, so each match comes with the nodes that follow it under the same
  parent, which is what \<^verbatim>\<open>.next()\<close> needs.
\<close>

fun select_tag :: "string \<Rightarrow> node list \<Rightarrow> (node \<times> node list) list" where
  "select_tag tg [] = []"
| "select_tag tg (Text t # rest) = select_tag tg rest"
| "select_tag tg (Elem tg' ch # rest) =
     (if tg' = tg then [(Elem tg' ch, rest)] else []) @ select_tag tg ch @ select_tag tg rest"

text \<open>
  \<^verbatim>\<open>.next('table')\<close>: the element that follows directly (text nodes between the two do
  not count), kept only if it is a \<^verbatim>\<open>table\<close>; an empty selection otherwise.
\<close>

fun next_sel :: "string \<Rightarrow> node list \<Rightarrow> node list" where
  "next_sel tg [] = []"
| "next_sel tg (Text t # rest) = next_sel tg rest"
| "next_sel tg (Elem tg' ch # rest) = (if tg' = tg then [Elem tg' ch] else [])"

text \<open>
  \<^verbatim>\<open>.find('tbody tr')\<close>: the \<^verbatim>\<open>tr\<close> elements below the selected table that lie inside
  a \<^verbatim>\<open>tbody\<close> of that table, in document order. \<open>inside\<close> tells whether a \<^verbatim>\<open>tbody\<close>
  has been entered.
\<close>

fun tbody_tr :: "bool \<Rightarrow> node list \<Rightarrow> node list" where
  "tbody_tr inside [] = []"
| "tbody_tr inside (Text t # rest) = tbody_tr inside rest"
| "tbody_tr inside (Elem tg ch # rest) =
     (if inside \<and> tg = ''tr'' then [Elem tg ch] else [])
     @ tbody_tr (inside \<or> tg = ''tbody'') ch @ tbody_tr inside rest"

fun children :: "node \<Rightarrow> node list" where
  "children (Elem tg ch) = ch"
| "children (Text t) = []"

definition find_tbody_tr :: "node list \<Rightarrow> node list" where
  "find_tbody_tr sel = concat (map (\<lambda>el. tbody_tr False (children el)) sel)"

text \<open>
  \<^verbatim>\<open>.find('td:nth-child(k)')\<close>: the \<^verbatim>\<open>td\<close> elements below the row that are the
  \<open>k\<close>-th element among the children of their parent. \<open>i\<close> counts the elements already
  passed under the current parent.
\<close>

fun td_nth_child :: "nat \<Rightarrow> nat \<Rightarrow> node list \<Rightarrow> node list" where
  "td_nth_child k i [] = []"
| "td_nth_child k i (Text t # rest) = td_nth_child k i rest"
| "td_nth_child k i (Elem tg ch # rest) =
     (if tg = ''td'' \<and> Suc i = k then [Elem tg ch] else [])
     @ td_nth_child k 0 ch @ td_nth_child k (Suc i) rest"

definition find_td :: "nat \<Rightarrow> node \<Rightarrow> node list" where
  "find_td k row = td_nth_child k 0 (children row)"

section \<open>The outside world\<close>

text \<open>
  The process environment, read once when the module is loaded. \<^verbatim>\<open>REDIS_PREFIX\<close>
  defaults to \<^verbatim>\<open>proftafla\<close> when it is not set.
\<close>

record env =
  REDIS_URL :: "string option"
  REDIS_EXPIRE :: "string option"
  REDIS_PREFIX :: "string option"

definition redisPrefix :: "env \<Rightarrow> string" where
  "redisPrefix ev = (case REDIS_PREFIX ev of None \<Rightarrow> ''proftafla'' | Some p \<Rightarrow> p)"

text \<open>
  A text kept in the store stands for what \<^verbatim>\<open>JSON.parse\<close> makes of it, the only thing
  the program ever does with it: the value it denotes, or a syntax error.
\<close>

datatype jtext = Json jv | Malformed

text \<open>What answers an HTTP request: no response at all, or a status and a body.\<close>

datatype body =
    NotJson
  | JsonNull
  | JsonNoHtml
  | JsonHtml "node list"

datatype outcome = Unreachable | Response nat body

text \<open>
  The body of a response stands for what \<^verbatim>\<open>result.json()\<close> and
  \<^verbatim>\<open>cheerio.load(json.html)\<close> make of it: \<open>NotJson\<close> when decoding fails, \<open>JsonNull\<close>
  when the decoded value is \<^verbatim>\<open>null\<close> (reading \<^verbatim>\<open>html\<close> from it raises), \<open>JsonNoHtml\<close>
  when the decoded value has no \<^verbatim>\<open>html\<close> field (\<^verbatim>\<open>cheerio.load(undefined)\<close> raises), and
  \<open>JsonHtml doc\<close> when its \<^verbatim>\<open>html\<close> field is a text, which \<^verbatim>\<open>cheerio.load\<close> turns into
  the tree \<open>doc\<close>. An empty text is loaded like any other: its tree has no heading. A
  body whose \<^verbatim>\<open>html\<close> field is there and holds something other than a text is left out.

  The world holds the redis store (each key with its text and the instant it expires),
  the clock, which redis commands fail, what the upstream server answers to each URL,
  the instant at which a call of \<^verbatim>\<open>getTests\<close> for a slug settles, the requests sent so
  far and the warnings printed so far.
\<close>

record world =
  store :: "(string \<times> jtext \<times> nat) list"
  now :: nat
  get_fails :: "string \<Rightarrow> bool"
  set_fails :: "string \<Rightarrow> bool"
  keys_fails :: bool
  del_fails :: "string \<Rightarrow> bool"
  upstream :: "string \<Rightarrow> outcome"
  settles :: "string \<Rightarrow> nat"
  requests :: "string list"
  warnings :: "string list"

subsection \<open>The redis commands\<close>

text \<open>The text under a key, if the key is there and has not expired.\<close>

definition live :: "world \<Rightarrow> string \<Rightarrow> jtext option" where
  "live w k = (case map_of (store w) k of
     None \<Rightarrow> None
   | Some (t, expires) \<Rightarrow> if now w < expires then Some t else None)"

text \<open>\<^verbatim>\<open>GET\<close> answers \<^verbatim>\<open>null\<close> for a key that is not there.\<close>

datatype reply = Nil | Bulk jtext

definition asyncGet :: "string \<Rightarrow> world \<Rightarrow> error + reply" where
  "asyncGet key w =
     (if get_fails w key then Inl StoreError
      else Inr (case live w key of None \<Rightarrow> Nil | Some t \<Rightarrow> Bulk t))"

text \<open>
  \<^verbatim>\<open>SET key text EX ttl\<close> wants a positive number of seconds: a run of decimal digits
  that does not start with \<^verbatim>\<open>0\<close> and fits 64 bits. Anything else (the variable not set,
  too) is an error.
\<close>

definition expire_seconds :: "string option \<Rightarrow> nat option" where
  "expire_seconds ttl = (case ttl of
     None \<Rightarrow> None
   | Some s \<Rightarrow>
       if s \<noteq> [] \<and> (\<forall>c \<in> set s. is_digit c) \<and> hd s \<noteq> CHR ''0''
          \<and> digits_val 0 s \<le> 9223372036854775807
       then Some (nat (digits_val 0 s)) else None)"

definition asyncSet :: "string \<Rightarrow> jtext \<Rightarrow> string option \<Rightarrow> world \<Rightarrow> error + world" where
  "asyncSet key t ttl w =
     (if set_fails w key then Inl StoreError
      else (case expire_seconds ttl of
              None \<Rightarrow> Inl StoreError
            | Some n \<Rightarrow> Inr (w\<lparr>store := AList.update key (t, now w + n) (store w)\<rparr>)))"

definition asyncDel :: "string \<Rightarrow> world \<Rightarrow> error + world" where
  "asyncDel key w =
     (if del_fails w key then Inl StoreError
      else Inr (w\<lparr>store := AList.delete key (store w)\<rparr>))"

text \<open>
  \<^verbatim>\<open>KEYS pattern\<close> takes a glob-style pattern, as the redis documentation describes it:
  \<^verbatim>\<open>*\<close> for any run of characters, \<^verbatim>\<open>?\<close> for any one character, \<^verbatim>\<open>[...]\<close> for one
  character of a class (characters and ranges, negated by a leading \<^verbatim>\<open>^\<close>), and a
  backslash to take the next character literally.
\<close>

datatype tok = Star | Any | Lit char | Class bool "(char \<times> char) list"

fun class_items :: "string \<Rightarrow> (char \<times> char) list \<times> string" where
  "class_items [] = ([], [])"
| "class_items [c] = (if c = CHR '']'' then ([], []) else ([(c, c)], []))"
| "class_items (c # d # cs) =
     (if c = CHR '']'' then ([], d # cs)
      else if c = CHR 0x5C then (let (items, r) = class_items cs in ((d, d) # items, r))
      else if d = CHR ''-'' \<and> cs \<noteq> []
        then (let (items, r) = class_items (tl cs) in ((c, hd cs) # items, r))
      else (let (items, r) = class_items (d # cs) in ((c, c) # items, r)))"

lemma class_items_length: "length (snd (class_items s)) \<le> length s"
proof (induction s rule: class_items.induct)
  case (3 c d cs)
  then show ?case
    by (cases cs) (auto simp: case_prod_beta Let_def le_SucI)
qed auto

function tokens :: "string \<Rightarrow> tok list" where
  "tokens [] = []"
| "tokens (c # cs) =
     (if c = CHR ''*'' then Star # tokens cs
      else if c = CHR ''?'' then Any # tokens cs
      else if c = CHR ''['' then
        (let neg = (cs \<noteq> [] \<and> hd cs = CHR ''^'');
             inner = (if neg then tl cs else cs)
         in Class neg (fst (class_items inner)) # tokens (snd (class_items inner)))
      else if c = CHR 0x5C \<and> cs \<noteq> [] then Lit (hd cs) # tokens (tl cs)
      else Lit c # tokens cs)"
  by pat_completeness auto
termination
proof (relation "measure length")
  fix c :: char and cs :: string and neg inner
  assume "neg = (cs \<noteq> [] \<and> hd cs = CHR ''^'')" "inner = (if neg then tl cs else cs)"
  then have "length inner \<le> length cs" by simp
  with class_items_length [of inner]
  show "(snd (class_items inner), c # cs) \<in> measure length" by simp
qed auto

definition in_class :: "char \<Rightarrow> (char \<times> char) list \<Rightarrow> bool" where
  "in_class c items =
     (\<exists>(a, b) \<in> set items.
        min (of_char a :: nat) (of_char b) \<le> of_char c \<and> of_char c \<le> max (of_char a :: nat) (of_char b))"

fun match :: "tok list \<Rightarrow> string \<Rightarrow> bool" where
  "match [] s = (s = [])"
| "match (Star # ts) [] = match ts []"
| "match (Star # ts) (c # s) = (match ts (c # s) \<or> match (Star # ts) s)"
| "match (Any # ts) [] = False"
| "match (Any # ts) (c # s) = match ts s"
| "match (Lit x # ts) [] = False"
| "match (Lit x # ts) (c # s) = (c = x \<and> match ts s)"
| "match (Class neg items # ts) [] = False"
| "match (Class neg items # ts) (c # s) = (in_class c items \<noteq> neg \<and> match ts s)"

definition glob :: "string \<Rightarrow> string \<Rightarrow> bool" where
  "glob pattern s = match (tokens pattern) s"

text \<open>A text without any of the characters that mean something in a pattern.\<close>

definition plain :: "string \<Rightarrow> bool" where
  "plain p = (\<forall>c \<in> set p. c \<notin> {CHR ''*'', CHR ''?'', CHR ''['', CHR 0x5C})"

definition asyncKeys :: "string \<Rightarrow> world \<Rightarrow> error + string list" where
  "asyncKeys pattern w =
     (if keys_fails w then Inl StoreError
      else Inr (filter (\<lambda>k. live w k \<noteq> None \<and> glob pattern k) (map fst (store w))))"

subsection \<open>\<^verbatim>\<open>JSON.parse\<close> and \<^verbatim>\<open>JSON.stringify\<close>\<close>

text \<open>
  \<^verbatim>\<open>JSON.parse(null)\<close> reads the word \<^verbatim>\<open>null\<close>: the reply for a missing key decodes
  to \<^verbatim>\<open>null\<close> without an error.
\<close>

fun JSON_parse :: "reply \<Rightarrow> error + jv" where
  "JSON_parse Nil = Inr JNull"
| "JSON_parse (Bulk (Json v)) = Inr v"
| "JSON_parse (Bulk Malformed) = Inl SyntaxError"

text \<open>
  What is read back from a text written by \<^verbatim>\<open>JSON.stringify\<close>: a number that is not
  finite is written as \<^verbatim>\<open>null\<close>, and so is \<^verbatim>\<open>undefined\<close> in an array; a property
  whose value is \<^verbatim>\<open>undefined\<close> is left out.
\<close>

fun jsonify :: "jv \<Rightarrow> jv"
  and jsonify_elems :: "jv list \<Rightarrow> jv list"
  and jsonify_props :: "(string \<times> jv) list \<Rightarrow> (string \<times> jv) list" where
  "jsonify (JNum n) = (case n of Fin r \<Rightarrow> JNum (Fin r) | _ \<Rightarrow> JNull)"
| "jsonify (JArr xs) = JArr (jsonify_elems xs)"
| "jsonify (JObj ps) = JObj (jsonify_props ps)"
| "jsonify JUndefined = JUndefined"
| "jsonify JNull = JNull"
| "jsonify (JBool b) = JBool b"
| "jsonify (JStr s) = JStr s"
| "jsonify_elems [] = []"
| "jsonify_elems (x # xs) = (if x = JUndefined then JNull else jsonify x) # jsonify_elems xs"
| "jsonify_props [] = []"
| "jsonify_props ((k, v) # ps) =
     (if v = JUndefined then [] else [(k, jsonify v)]) @ jsonify_props ps"

text \<open>
  \<^verbatim>\<open>JSON.stringify(undefined)\<close> is no text at all; what reaches the store for it is
  not JSON.
\<close>

definition JSON_stringify :: "jv \<Rightarrow> jtext" where
  "JSON_stringify v = (if v = JUndefined then Malformed else Json (jsonify v))"

text \<open>A value that \<^verbatim>\<open>JSON.stringify\<close> writes without loss: every number in it is finite, and
  \<^verbatim>\<open>undefined\<close> does not occur in it.\<close>

fun json_exact :: "jv \<Rightarrow> bool"
  and json_exact_elems :: "jv list \<Rightarrow> bool"
  and json_exact_props :: "(string \<times> jv) list \<Rightarrow> bool" where
  "json_exact (JNum n) = (case n of Fin r \<Rightarrow> True | _ \<Rightarrow> False)"
| "json_exact (JArr xs) = json_exact_elems xs"
| "json_exact (JObj ps) = json_exact_props ps"
| "json_exact JUndefined = False"
| "json_exact JNull = True"
| "json_exact (JBool b) = True"
| "json_exact (JStr s) = True"
| "json_exact_elems [] = True"
| "json_exact_elems (x # xs) = (json_exact x \<and> json_exact_elems xs)"
| "json_exact_props [] = True"
| "json_exact_props ((k, v) # ps) = (json_exact v \<and> json_exact_props ps)"

section \<open>The program\<close>

subsection \<open>\<^verbatim>\<open>schools\<close>\<close>

record school =
  name :: string
  id_num :: nat
  slug :: string

definition schools :: "school list" where
  "schools =
     [\<lparr>name = ''F'' @ [CHR 0xE9] @ ''lagsv'' @ [CHR 0xED] @ ''sindasvi'' @ [CHR 0xF0],
       id_num = 1, slug = ''felagsvisindasvid''\<rparr>,
      \<lparr>name = ''Heilbrig'' @ [CHR 0xF0] @ ''isv'' @ [CHR 0xED] @ ''sindasvi'' @ [CHR 0xF0],
       id_num = 2, slug = ''heilbrigdisvisindasvid''\<rparr>,
      \<lparr>name = ''Hugv'' @ [CHR 0xED] @ ''sindasvi'' @ [CHR 0xF0],
       id_num = 3, slug = ''hugvisindasvid''\<rparr>,
      \<lparr>name = ''Menntav'' @ [CHR 0xED] @ ''sindasvi'' @ [CHR 0xF0],
       id_num = 4, slug = ''menntavisindasvid''\<rparr>,
      \<lparr>name = ''Verkfr'' @ [CHR 0xE6, CHR 0xF0] @ ''i- og n'' @ [CHR 0xE1] @ ''tt''
                @ [CHR 0xFA] @ ''ruv'' @ [CHR 0xED] @ ''sindasvi'' @ [CHR 0xF0],
       id_num = 5, slug = ''verkfraedi-og-natturuvisindasvid''\<rparr>]"

subsection \<open>\<^verbatim>\<open>getFromCache\<close> and \<^verbatim>\<open>cache\<close>\<close>

definition warn :: "string \<Rightarrow> world \<Rightarrow> world" where
  "warn msg w = w\<lparr>warnings := warnings w @ [msg]\<rparr>"

definition getFromCache :: "string \<Rightarrow> world \<Rightarrow> jv \<times> world" where
  "getFromCache key w =
     (case (case asyncGet key w of Inl error \<Rightarrow> Inl error | Inr result \<Rightarrow> JSON_parse result) of
        Inr v \<Rightarrow> (v, w)
      | Inl error \<Rightarrow> (JNull, warn (''Unable to get key '' @ key @ '' from cache'') w))"

definition cache :: "env \<Rightarrow> string \<Rightarrow> jv \<Rightarrow> world \<Rightarrow> world" where
  "cache ev key v w =
     (let ttl = REDIS_EXPIRE ev in
      case asyncSet key (JSON_stringify v) ttl w of
        Inr w' \<Rightarrow> w'
      | Inl error \<Rightarrow> warn (''Unable to set cache for key '' @ key) w)"

subsection \<open>\<^verbatim>\<open>fetchAndParse\<close>\<close>

definition url_of :: "nat \<Rightarrow> string" where
  "url_of i =
     ''https://ugla.hi.is/Proftafla/View/ajax.php?sid=2027&a=getProfSvids&proftaflaID=37&svidID=''
     @ show_int (int i) @ ''&notaVinnuToflu=0''"

text \<open>The callback of \<^verbatim>\<open>rows.each\<close>: one row of the table becomes one test.\<close>

definition row_test :: "node \<Rightarrow> jv" where
  "row_test row =
     (let course = trim (text_of (find_td 1 row));
          name = trim (text_of (find_td 2 row));
          type = trim (text_of (find_td 3 row));
          students = trim (text_of (find_td 4 row));
          date = trim (text_of (find_td 5 row))
      in JObj [(''course'', JStr course), (''name'', JStr name), (''type'', JStr type),
               (''students'', JNum (StringToNumber students)), (''date'', JStr date)])"

text \<open>
  The callback of \<^verbatim>\<open>departmentHeadings.each\<close>: \<open>el\<close> is the heading and \<open>after\<close> are
  the nodes that follow it.
\<close>

definition department :: "node \<times> node list \<Rightarrow> jv" where
  "department h =
     (let el = fst h; after = snd h;
          departmentHeading = trim (node_text el);
          rows = find_tbody_tr (next_sel ''table'' after);
          tests = map row_test rows
      in JObj [(''heading'', JStr departmentHeading), (''tests'', JArr tests)])"

definition fetchAndParse :: "nat \<Rightarrow> string \<Rightarrow> world \<Rightarrow> (error + jv) \<times> world" where
  "fetchAndParse i heading w =
     (let url = url_of i;
          w' = w\<lparr>requests := requests w @ [url]\<rparr>
      in case upstream w url of
           Unreachable \<Rightarrow> (Inl NetworkError, w')
         | Response status b \<Rightarrow>
             if status \<noteq> 200 then (Inl Non200, w')
             else (case b of
                     NotJson \<Rightarrow> (Inl BodyError, w')
                   | JsonNull \<Rightarrow> (Inl TypeError, w')
                   | JsonNoHtml \<Rightarrow> (Inl TypeError, w')
                   | JsonHtml doc \<Rightarrow>
                       let departmentHeadings = select_tag ''h3'' doc;
                           departments = map department departmentHeadings
                       in (Inr (JObj [(''heading'', JStr heading),
                                      (''departments'', JArr departments)]), w')))"

subsection \<open>\<^verbatim>\<open>getTests\<close>\<close>

text \<open>The cache key \<^verbatim>\<open>`${redisPrefix}:${slug}`\<close>.\<close>

definition key_of :: "env \<Rightarrow> string \<Rightarrow> string" where
  "key_of ev sl = redisPrefix ev @ '':'' @ sl"

definition getTests :: "env \<Rightarrow> string \<Rightarrow> world \<Rightarrow> (error + jv) \<times> world" where
  "getTests ev sl w =
     (case find (\<lambda>i. slug i = sl) schools of
        None \<Rightarrow> (Inr JNull, w)
      | Some item \<Rightarrow>
          let key = key_of ev sl;
              (cached, w1) = getFromCache key w
          in if truthy cached then (Inr cached, w1)
             else (case fetchAndParse (id_num item) (name item) w1 of
                     (Inl error, w2) \<Rightarrow> (Inl error, w2)
                   | (Inr data, w2) \<Rightarrow> (Inr data, cache ev key data w2)))"

subsection \<open>\<^verbatim>\<open>clearCache\<close>\<close>

text \<open>
  \<^verbatim>\<open>keys.map(key => asyncDel(key))\<close> sends every \<^verbatim>\<open>DEL\<close>; \<^verbatim>\<open>Promise.all\<close> then fails
  if one of them failed. \<open>del_all\<close> returns whether one did.
\<close>

fun del_all :: "string list \<Rightarrow> world \<Rightarrow> bool \<times> world" where
  "del_all [] w = (False, w)"
| "del_all (key # keys) w =
     (case asyncDel key w of
        Inl error \<Rightarrow> (True, snd (del_all keys w))
      | Inr w' \<Rightarrow> del_all keys w')"

definition clearCache :: "env \<Rightarrow> world \<Rightarrow> bool \<times> world" where
  "clearCache ev w =
     (case asyncKeys (redisPrefix ev @ '':*'') w of
        Inl error \<Rightarrow> (False, warn ''Unable to clear cache'' w)
      | Inr keys \<Rightarrow>
          (case del_all keys w of
             (True, w') \<Rightarrow> (False, warn ''Unable to clear cache'' w')
           | (False, w') \<Rightarrow> (True, w')))"

subsection \<open>\<^verbatim>\<open>getStats\<close>\<close>

record counters =
  min_students :: jv
  max_students :: jv
  numTests :: jsnum
  numStudents :: jv

record stats = counters +
  averageStudents :: string

text \<open>The body of the innermost \<^verbatim>\<open>forEach\<close>.\<close>

definition count_test :: "jv \<Rightarrow> counters \<Rightarrow> error + counters" where
  "count_test test c =
     (case get_prop test ''students'' of Inl e \<Rightarrow> Inl e | Inr students \<Rightarrow>
      case js_add (numStudents c) students of Inl e \<Rightarrow> Inl e | Inr added \<Rightarrow>
      case js_gt students (max_students c) of Inl e \<Rightarrow> Inl e | Inr is_more \<Rightarrow>
      case js_lt students (min_students c) of Inl e \<Rightarrow> Inl e | Inr is_less \<Rightarrow>
        Inr \<lparr>min_students = (if is_less then students else min_students c),
             max_students = (if is_more then students else max_students c),
             numTests = num_add (numTests c) (Fin 1),
             numStudents = added\<rparr>)"

definition count_department :: "jv \<Rightarrow> counters \<Rightarrow> error + counters" where
  "count_department dep c =
     (case get_prop dep ''tests'' of Inl e \<Rightarrow> Inl e | Inr ts \<Rightarrow>
      case elements ts of Inl e \<Rightarrow> Inl e | Inr xs \<Rightarrow> forEach count_test xs c)"

definition count_school :: "jv \<Rightarrow> counters \<Rightarrow> error + counters" where
  "count_school sch c =
     (case get_prop sch ''departments'' of Inl e \<Rightarrow> Inl e | Inr ds \<Rightarrow>
      case elements ds of Inl e \<Rightarrow> Inl e | Inr xs \<Rightarrow> forEach count_department xs c)"

text \<open>
  What \<^verbatim>\<open>getStats\<close> does once \<^verbatim>\<open>all\<close>, the results of the \<^verbatim>\<open>getTests\<close> calls, is
  there: the counters start at 999, 0, 0 and 0, every test is counted, and the average is
  printed with two decimals.
\<close>

definition summarise :: "jv list \<Rightarrow> error + stats" where
  "summarise all =
     (case forEach count_school all
             \<lparr>min_students = JNum (Fin 999), max_students = JNum (Fin 0),
              numTests = Fin 0, numStudents = JNum (Fin 0)\<rparr> of
        Inl e \<Rightarrow> Inl e
      | Inr c \<Rightarrow>
          (case js_div (numStudents c) (JNum (numTests c)) of
             Inl e \<Rightarrow> Inl e
           | Inr q \<Rightarrow>
               Inr \<lparr>min_students = min_students c, max_students = max_students c,
                    numTests = numTests c, numStudents = numStudents c,
                    averageStudents = toFixed 2 q\<rparr>))"

text \<open>
  \<^verbatim>\<open>schools.map(d => getTests(d.slug))\<close> starts one \<^verbatim>\<open>getTests\<close> for every school, and
  each of them runs to its end whatever becomes of the others; they work on different
  keys and URLs, so running them one after the other loses nothing but the order of the
  log. Each result comes with the instant at which its call settles.
\<close>

fun get_all :: "env \<Rightarrow> string list \<Rightarrow> world \<Rightarrow> (nat \<times> (error + jv)) list \<times> world" where
  "get_all ev [] w = ([], w)"
| "get_all ev (sl # sls) w =
     (let (r, w1) = getTests ev sl w; (rs, w2) = get_all ev sls w1
      in ((settles w sl, r) # rs, w2))"

text \<open>
  \<^verbatim>\<open>Promise.all\<close> delivers the values of all the calls, in the order of the list, when
  none of them failed, and otherwise the error of the call that failed first in time (of
  two that fail at the same instant, the one that comes first in the list).
\<close>

fun earliest :: "nat \<times> error \<Rightarrow> (nat \<times> (error + 'a)) list \<Rightarrow> error" where
  "earliest (t, e) [] = e"
| "earliest (t, e) ((t', Inl e') # rs) =
     (if t' < t then earliest (t', e') rs else earliest (t, e) rs)"
| "earliest (t, e) ((t', Inr v) # rs) = earliest (t, e) rs"

fun Promise_all :: "(nat \<times> (error + 'a)) list \<Rightarrow> error + 'a list" where
  "Promise_all [] = Inr []"
| "Promise_all ((t, Inl e) # rs) = Inl (earliest (t, e) rs)"
| "Promise_all ((t, Inr v) # rs) =
     (case Promise_all rs of Inl e \<Rightarrow> Inl e | Inr vs \<Rightarrow> Inr (v # vs))"

definition getStats :: "env \<Rightarrow> world \<Rightarrow> (error + stats) \<times> world" where
  "getStats ev w =
     (let (rs, w') = get_all ev (map slug schools) w
      in case Promise_all rs of
           Inl e \<Rightarrow> (Inl e, w')
         | Inr all \<Rightarrow> (summarise all, w'))"

section \<open>The data model\<close>

text \<open>
  The results as the specification types them: a division holds departments, a
  department holds tests, a test has a course, a name, a type, a number of students and a
  date. \<open>division_obj\<close> writes such a result as the object \<^verbatim>\<open>fetchAndParse\<close> builds.
\<close>

datatype test = Test string string string jsnum string

datatype dept = Department string "test list"

datatype division = DivisionResult string "dept list"

fun students :: "test \<Rightarrow> jsnum" where
  "students (Test c n t s d) = s"

fun tests :: "dept \<Rightarrow> test list" where
  "tests (Department h ts) = ts"

fun departments :: "division \<Rightarrow> dept list" where
  "departments (DivisionResult h ds) = ds"

definition all_tests :: "division list \<Rightarrow> test list" where
  "all_tests divs = concat (map tests (concat (map departments divs)))"

fun test_obj :: "test \<Rightarrow> jv" where
  "test_obj (Test c n t s d) =
     JObj [(''course'', JStr c), (''name'', JStr n), (''type'', JStr t),
           (''students'', JNum s), (''date'', JStr d)]"

fun department_obj :: "dept \<Rightarrow> jv" where
  "department_obj (Department h ts) =
     JObj [(''heading'', JStr h), (''tests'', JArr (map test_obj ts))]"

fun division_obj :: "division \<Rightarrow> jv" where
  "division_obj (DivisionResult h ds) =
     JObj [(''heading'', JStr h), (''departments'', JArr (map department_obj ds))]"

text \<open>
  The four counters of \<^verbatim>\<open>getStats\<close> over a list of student numbers: minimum, maximum,
  count and sum, from given starting values.
\<close>

fun tally :: "jsnum list \<Rightarrow> jsnum \<times> jsnum \<times> jsnum \<times> jsnum \<Rightarrow> jsnum \<times> jsnum \<times> jsnum \<times> jsnum" where
  "tally [] q = q"
| "tally (x # xs) (mn, mx, n, sm) =
     tally xs (if num_lt x mn then x else mn, if num_lt mx x then x else mx,
               num_add n (Fin 1), num_add sm x)"

definition counters_of :: "jsnum \<times> jsnum \<times> jsnum \<times> jsnum \<Rightarrow> counters" where
  "counters_of q = (case q of (mn, mx, n, sm) \<Rightarrow>
     \<lparr>min_students = JNum mn, max_students = JNum mx, numTests = n, numStudents = JNum sm\<rparr>)"

text \<open>
  \<open>m\<close> is a minimum (a maximum) of the numbers \<open>xs\<close>: one of them, and none of them is
  below (above) it.
\<close>

definition is_min :: "jsnum \<Rightarrow> jsnum list \<Rightarrow> bool" where
  "is_min m xs = (m \<in> set xs \<and> (\<forall>x \<in> set xs. \<not> num_lt x m))"

definition is_max :: "jsnum \<Rightarrow> jsnum list \<Rightarrow> bool" where
  "is_max m xs = (m \<in> set xs \<and> (\<forall>x \<in> set xs. \<not> num_lt m x))"

subsection \<open>Reading a fragment\<close>


















section \<open>Sample inputs\<close>

text \<open>
  A plain layout for sample pages: for every department a level-3 heading, then a table
  with a header row and, in its body, one row per test. A department is given by the
  text of its heading, the texts of the header cells and, for each row, the texts of its
  cells.
\<close>

type_synonym listing = "string \<times> string list \<times> string list list"

definition cell :: "string \<Rightarrow> node" where
  "cell c = Elem ''td'' [Text c]"

definition table_row :: "string list \<Rightarrow> node" where
  "table_row cs = Elem ''tr'' (map cell cs)"

definition listing_table :: "string list \<Rightarrow> string list list \<Rightarrow> node" where
  "listing_table header rows =
     Elem ''table''
       [Elem ''thead'' [Elem ''tr'' (map (\<lambda>c. Elem ''th'' [Text c]) header)],
        Elem ''tbody'' (map table_row rows)]"

fun page :: "listing list \<Rightarrow> node list" where
  "page [] = []"
| "page ((h, header, rows) # ls) =
     Elem ''h3'' [Text h] # Text [CHR 0x0A] # listing_table header rows # Text [CHR 0x0A] # page ls"

definition sample_listings :: "listing list" where
  "sample_listings =
     [('' Hagfraedideild '', [''Namskeid'', ''Heiti'', ''Tegund'', ''Fjoldi'', ''Dagsetning''],
       [[''HAG101G'', ''Rekstrarhagfraedi I'', ''Skriflegt'', ''42'', ''03.12.2018 09:00''],
        [''HAG201G'', ''Thjodhagfraedi I'', ''Heimaprof'', '' 7 '', ''05.12.2018 13:30'']]),
      (''Laeknadeild'', [''Namskeid'', ''Heiti'', ''Tegund'', ''Fjoldi'', ''Dagsetning''],
       [[''LAK101G'', ''Inngangur ad laeknisfraedi'', ''Skriflegt'', ''128'', ''10.12.2018 09:00'']])]"

definition sample_page :: outcome where
  "sample_page = Response 200 (JsonHtml (page sample_listings))"

definition sample_env :: env where
  "sample_env = \<lparr>REDIS_URL = None, REDIS_EXPIRE = Some ''60'', REDIS_PREFIX = None\<rparr>"

text \<open>A world at time 0 where every redis command works and every request gets the same answer.\<close>

definition sample_world :: "(string \<times> jtext \<times> nat) list \<Rightarrow> outcome \<Rightarrow> world" where
  "sample_world st out =
     \<lparr>store = st, now = 0, get_fails = (\<lambda>k. False), set_fails = (\<lambda>k. False),
      keys_fails = False, del_fails = (\<lambda>k. False), upstream = (\<lambda>u. out),
      settles = (\<lambda>sl. 0), requests = [], warnings = []\<rparr>"

definition not_found :: outcome where
  "not_found = Response 404 NotJson"

text \<open>
  Three tests, with 3, 10 and 1 students, in two divisions; and the store that holds
  them, with nothing for the three other schools.
\<close>

definition counted_divisions :: "division list" where
  "counted_divisions =
     [DivisionResult ''A'' [Department ''A1'' [Test ''c1'' ''n1'' ''t1'' (Fin 3) ''d1''],
                            Department ''A2'' [],
                            Department ''A3'' [Test ''c2'' ''n2'' ''t2'' (Fin 10) ''d2'']],
      DivisionResult ''B'' [Department ''B1'' [Test ''c3'' ''n3'' ''t3'' (Fin 1) ''d3'']],
      DivisionResult ''C'' [], DivisionResult ''D'' [], DivisionResult ''E'' []]"

definition counted_store :: "(string \<times> jtext \<times> nat) list" where
  "counted_store =
     map (\<lambda>(s, d). (''proftafla:'' @ slug s, Json (division_obj d), 60))
       (zip schools counted_divisions)"

text \<open>A page with a single test of 1000 students.\<close>

definition crowded_page :: outcome where
  "crowded_page =
     Response 200 (JsonHtml (page [(''Deild'', [], [[''c'', ''n'', ''t'', ''1000'', ''d'']])]))"

definition crowded_divisions :: "division list" where
  "crowded_divisions =
     map (\<lambda>s. DivisionResult (name s)
                [Department ''Deild'' [Test ''c'' ''n'' ''t'' (Fin 1000) ''d'']]) schools"

text \<open>A page without any heading.\<close>

definition empty_page :: outcome where
  "empty_page = Response 200 (JsonHtml [])"

definition empty_divisions :: "division list" where
  "empty_divisions = map (\<lambda>s. DivisionResult (name s) []) schools"

text \<open>An environment whose prefix is a bracket expression.\<close>

definition bracket_env :: env where
  "bracket_env = \<lparr>REDIS_URL = None, REDIS_EXPIRE = Some ''60'', REDIS_PREFIX = Some ''[x]''\<rparr>"

text \<open>A page whose only test has no number in the students cell.\<close>

definition unnumbered_page :: outcome where
  "unnumbered_page =
     Response 200 (JsonHtml (page [(''Deild'', [], [[''c'', ''n'', ''t'', ''N/A'', ''d'']])]))"


text \<open>What \<^verbatim>\<open>fetchAndParse\<close> is to make of the sample page, under a given heading.\<close>

definition sample_result :: "string \<Rightarrow> jv" where
  "sample_result heading =
     JObj [(''heading'', JStr heading),
           (''departments'', JArr
             [JObj [(''heading'', JStr ''Hagfraedideild''),
                    (''tests'', JArr
                      [JObj [(''course'', JStr ''HAG101G''), (''name'', JStr ''Rekstrarhagfraedi I''),
                             (''type'', JStr ''Skriflegt''), (''students'', JNum (Fin 42)),
                             (''date'', JStr ''03.12.2018 09:00'')],
                       JObj [(''course'', JStr ''HAG201G''), (''name'', JStr ''Thjodhagfraedi I''),
                             (''type'', JStr ''Heimaprof''), (''students'', JNum (Fin 7)),
                             (''date'', JStr ''05.12.2018 13:30'')]])],
              JObj [(''heading'', JStr ''Laeknadeild''),
                    (''tests'', JArr
                      [JObj [(''course'', JStr ''LAK101G''),
                             (''name'', JStr ''Inngangur ad laeknisfraedi''),
                             (''type'', JStr ''Skriflegt''), (''students'', JNum (Fin 128)),
                             (''date'', JStr ''10.12.2018 09:00'')]])]])]"




text \<open>
  The first call for a slug on an empty cache, and the world one second before the
  entry it wrote expires.
\<close>

definition first_call :: "(error + jv) \<times> world" where
  "first_call = getTests sample_env ''hugvisindasvid'' (sample_world [] sample_page)"

definition later_world :: world where
  "later_world = (snd first_call)\<lparr>now := 59\<rparr>"

text \<open>A world where no redis command works.\<close>

definition broken_world :: "outcome \<Rightarrow> world" where
  "broken_world out =
     (sample_world [] out)\<lparr>get_fails := (\<lambda>k. True), set_fails := (\<lambda>k. True),
                            keys_fails := True, del_fails := (\<lambda>k. True)\<rparr>"

section \<open>Properties\<close>

subsection \<open>How \<^verbatim>\<open>getTests\<close> unfolds\<close>

lemma fetchAndParse_errors:
  "fst (fetchAndParse i h w) \<noteq> Inl StoreError \<and> fst (fetchAndParse i h w) \<noteq> Inl SyntaxError"
  by (simp add: fetchAndParse_def Let_def split: outcome.splits body.splits)

lemma fetchAndParse_warn [simp]:
  "fst (fetchAndParse i h (warn m w)) = fst (fetchAndParse i h w)"
  by (simp add: fetchAndParse_def warn_def Let_def split: outcome.splits body.splits)

lemma fetchAndParse_requests:
  "requests (snd (fetchAndParse i h w)) = requests w @ [url_of i]"
  by (simp add: fetchAndParse_def Let_def split: outcome.splits body.splits)

lemma fetchAndParse_store:
  "store (snd (fetchAndParse i h w)) = store w"
  by (simp add: fetchAndParse_def Let_def split: outcome.splits body.splits)

lemma getTests_miss:
  assumes "find (\<lambda>s. slug s = sl) schools = Some item"
    and "\<not> truthy (fst (getFromCache (key_of ev sl) w))"
  shows "getTests ev sl w =
     (case fetchAndParse (id_num item) (name item) (snd (getFromCache (key_of ev sl) w)) of
        (Inl e, w2) \<Rightarrow> (Inl e, w2)
      | (Inr data, w2) \<Rightarrow> (Inr data, cache ev (key_of ev sl) data w2))"
  using assms by (cases "getFromCache (key_of ev sl) w") (simp add: getTests_def)

lemma getTests_hit:
  assumes "find (\<lambda>s. slug s = sl) schools = Some item"
    and "truthy (fst (getFromCache (key_of ev sl) w))"
  shows "getTests ev sl w = (Inr (fst (getFromCache (key_of ev sl) w)),
                             snd (getFromCache (key_of ev sl) w))"
  using assms by (cases "getFromCache (key_of ev sl) w") (simp add: getTests_def)

lemma getFromCache_keeps:
  "upstream (snd (getFromCache k w)) = upstream w"
  "store (snd (getFromCache k w)) = store w"
  "requests (snd (getFromCache k w)) = requests w"
  "now (snd (getFromCache k w)) = now w"
  "set_fails (snd (getFromCache k w)) = set_fails w"
  by (simp_all add: getFromCache_def warn_def split: sum.splits)

subsection \<open>Unknown slugs\<close>

text \<open>
  C4. For a slug that no school of the registry has, \<^verbatim>\<open>getTests\<close> returns \<^verbatim>\<open>null\<close>
  and raises nothing; it touches neither the cache nor the network.
\<close>

theorem getTests_unknown_slug:
  "sl \<notin> slug ` set schools \<Longrightarrow> getTests ev sl w = (Inr JNull, w)"
proof -
  assume "sl \<notin> slug ` set schools"
  then have "find (\<lambda>i. slug i = sl) schools = None"
    by (auto simp: find_None_iff)
  then show ?thesis by (simp add: getTests_def)
qed

theorem getTests_unknown_slug_witness:
  "''gudfraedideild'' \<notin> slug ` set schools
   \<and> getTests sample_env ''gudfraedideild'' (sample_world [] Unreachable)
       = (Inr JNull, sample_world [] Unreachable)"
  using getTests_unknown_slug [of "''gudfraedideild''" sample_env "sample_world [] Unreachable"]
  by (simp add: schools_def)

subsection \<open>A status other than 200\<close>

text \<open>
  C7. When the response to the request of \<^verbatim>\<open>fetchAndParse\<close> has a status other than
  200, \<^verbatim>\<open>fetchAndParse\<close> raises its error, and \<^verbatim>\<open>getTests\<close>, which reaches the request
  when the cache gave nothing, passes the error on and leaves the store as it was.
\<close>

theorem non200_raises:
  assumes "upstream w (url_of i) = Response status b" and "status \<noteq> 200"
  shows "fetchAndParse i heading w = (Inl Non200, w\<lparr>requests := requests w @ [url_of i]\<rparr>)
    \<and> (\<forall>ev sl item. find (\<lambda>s. slug s = sl) schools = Some item \<and> id_num item = i
           \<and> \<not> truthy (fst (getFromCache (key_of ev sl) w))
         \<longrightarrow> fst (getTests ev sl w) = Inl Non200
             \<and> store (snd (getTests ev sl w)) = store w)"
proof -
  have a: "fetchAndParse i h w' = (Inl Non200, w'\<lparr>requests := requests w' @ [url_of i]\<rparr>)"
    if "upstream w' = upstream w" for w' h
    using assms that by (simp add: fetchAndParse_def Let_def)
  show ?thesis
  proof (intro conjI allI impI)
    show "fetchAndParse i heading w = (Inl Non200, w\<lparr>requests := requests w @ [url_of i]\<rparr>)"
      by (rule a) simp
  next
    fix ev sl item
    assume h: "find (\<lambda>s. slug s = sl) schools = Some item \<and> id_num item = i
           \<and> \<not> truthy (fst (getFromCache (key_of ev sl) w))"
    let ?w1 = "snd (getFromCache (key_of ev sl) w)"
    from h have h1: "find (\<lambda>s. slug s = sl) schools = Some item"
      and h2: "id_num item = i"
      and h3: "\<not> truthy (fst (getFromCache (key_of ev sl) w))" by simp_all
    have f: "fetchAndParse (id_num item) (name item) ?w1
               = (Inl Non200, ?w1\<lparr>requests := requests ?w1 @ [url_of i]\<rparr>)"
      unfolding h2 by (rule a) (simp add: getFromCache_keeps)
    have g: "getTests ev sl w = (Inl Non200, ?w1\<lparr>requests := requests ?w1 @ [url_of i]\<rparr>)"
      by (simp add: getTests_miss [OF h1 h3] f)
    show "fst (getTests ev sl w) = Inl Non200" by (simp add: g)
    show "store (snd (getTests ev sl w)) = store w" by (simp add: g getFromCache_keeps)
  qed
qed

theorem non200_raises_witness:
  "upstream (sample_world [] not_found) (url_of 3) = Response 404 NotJson \<and> (404::nat) \<noteq> 200
   \<and> fetchAndParse 3 ''Hug'' (sample_world [] not_found)
       = (Inl Non200, (sample_world [] not_found)\<lparr>requests := requests (sample_world [] not_found) @ [url_of 3]\<rparr>)
   \<and> find (\<lambda>s. slug s = ''hugvisindasvid'') schools = Some (schools ! 2)
   \<and> id_num (schools ! 2) = 3
   \<and> \<not> truthy (fst (getFromCache (key_of sample_env ''hugvisindasvid'') (sample_world [] not_found)))
   \<and> fst (getTests sample_env ''hugvisindasvid'' (sample_world [] not_found)) = Inl Non200"
proof -
  have u: "upstream (sample_world [] not_found) (url_of 3) = Response 404 NotJson"
    by (simp add: sample_world_def not_found_def)
  have f: "find (\<lambda>s. slug s = ''hugvisindasvid'') schools = Some (schools ! 2) \<and> id_num (schools ! 2) = 3"
    by (simp add: schools_def)
  have c: "\<not> truthy (fst (getFromCache (key_of sample_env ''hugvisindasvid'') (sample_world [] not_found)))"
    by (simp add: getFromCache_def asyncGet_def sample_world_def live_def)
  have n: "(404::nat) \<noteq> 200" by simp
  note t = non200_raises [OF u n, of "''Hug''"]
  from t have 1: "fetchAndParse 3 ''Hug'' (sample_world [] not_found)
       = (Inl Non200, (sample_world [] not_found)\<lparr>requests := requests (sample_world [] not_found) @ [url_of 3]\<rparr>)"
    by (rule conjunct1)
  from t f c have 2: "fst (getTests sample_env ''hugvisindasvid'' (sample_world [] not_found)) = Inl Non200"
    by blast
  show ?thesis using u n 1 2 f c by (intro conjI) simp_all
qed

subsection \<open>The cache commands, one by one\<close>

lemma digits_val_ge: "0 \<le> acc \<Longrightarrow> acc \<le> digits_val acc s"
proof (induction s arbitrary: acc)
  case Nil
  show ?case by simp
next
  case (Cons c cs)
  have "0 \<le> digit_val c" by (simp add: digit_val_def)
  with Cons.prems have "0 \<le> 10 * acc + digit_val c" "acc \<le> 10 * acc + digit_val c" by simp_all
  with Cons.IH [of "10 * acc + digit_val c"] show ?case by simp
qed

lemma expire_seconds_pos: "expire_seconds ttl = Some n \<Longrightarrow> 0 < n"
proof -
  assume a: "expire_seconds ttl = Some n"
  then obtain s where s: "ttl = Some s" "s \<noteq> []" "hd s \<noteq> CHR ''0''" "n = nat (digits_val 0 s)"
    by (auto simp: expire_seconds_def split: option.splits if_splits)
  then obtain c cs where cs: "s = c # cs" by (cases s) auto
  with s have "1 \<le> digit_val c" by (simp add: digit_val_def)
  with digits_val_ge [of "digit_val c" cs] have "1 \<le> digits_val 0 s" by (simp add: cs)
  with s show ?thesis by simp
qed

lemma fetchAndParse_ok:
  assumes "fetchAndParse i h w = (Inr data, w2)"
  shows "w2 = w\<lparr>requests := requests w @ [url_of i]\<rparr>"
    and "\<exists>ds. data = JObj [(''heading'', JStr h), (''departments'', JArr ds)]"
  using assms
  by (auto simp: fetchAndParse_def Let_def split: outcome.splits body.splits if_splits)

lemma getFromCache_fails:
  "get_fails w key \<or> live w key = Some Malformed \<Longrightarrow>
     getFromCache key w = (JNull, warn (''Unable to get key '' @ key @ '' from cache'') w)"
  by (auto simp: getFromCache_def asyncGet_def)

lemma getFromCache_value:
  "\<not> get_fails w key \<Longrightarrow> live w key = Some (Json v) \<Longrightarrow> getFromCache key w = (v, w)"
  by (simp add: getFromCache_def asyncGet_def)

lemma cache_fails:
  "set_fails w key \<or> expire_seconds (REDIS_EXPIRE ev) = None \<Longrightarrow>
     cache ev key v w = warn (''Unable to set cache for key '' @ key) w"
  by (auto simp: cache_def asyncSet_def)

lemma cache_stores:
  assumes "\<not> set_fails w key" "expire_seconds (REDIS_EXPIRE ev) = Some n"
  shows "cache ev key v w = w\<lparr>store := AList.update key (JSON_stringify v, now w + n) (store w)\<rparr>"
  using assms by (simp add: cache_def asyncSet_def)

lemma fetchAndParse_snd_getFromCache:
  "fst (fetchAndParse i h (snd (getFromCache k w))) = fst (fetchAndParse i h w)"
  by (simp add: getFromCache_def split: sum.splits)

lemma getTests_errors:
  "fst (getTests ev sl w) \<noteq> Inl StoreError \<and> fst (getTests ev sl w) \<noteq> Inl SyntaxError"
proof (cases "find (\<lambda>s. slug s = sl) schools")
  case None
  then show ?thesis by (simp add: getTests_def)
next
  case (Some item)
  show ?thesis
  proof (cases "truthy (fst (getFromCache (key_of ev sl) w))")
    case True
    show ?thesis by (simp add: getTests_hit [OF Some True])
  next
    case False
    let ?w1 = "snd (getFromCache (key_of ev sl) w)"
    obtain r w2 where f: "fetchAndParse (id_num item) (name item) ?w1 = (r, w2)"
      by (cases "fetchAndParse (id_num item) (name item) ?w1") auto
    with fetchAndParse_errors [of "id_num item" "name item" ?w1]
    show ?thesis
      by (cases r) (simp_all add: getTests_miss [OF Some False] f)
  qed
qed

lemma getTests_miss_result:
  assumes "find (\<lambda>s. slug s = sl) schools = Some item"
    and "\<not> truthy (fst (getFromCache (key_of ev sl) w))"
  shows "fst (getTests ev sl w) = fst (fetchAndParse (id_num item) (name item) w)"
proof -
  let ?w1 = "snd (getFromCache (key_of ev sl) w)"
  obtain r w2 where f: "fetchAndParse (id_num item) (name item) ?w1 = (r, w2)"
    by (cases "fetchAndParse (id_num item) (name item) ?w1") auto
  then have "fst (getTests ev sl w) = r"
    by (cases r) (simp_all add: getTests_miss [OF assms])
  also have "r = fst (fetchAndParse (id_num item) (name item) ?w1)" by (simp add: f)
  finally show ?thesis by (simp add: fetchAndParse_snd_getFromCache)
qed

lemma live_update:
  "live (w\<lparr>store := AList.update k (t, e) (store w)\<rparr>) k' =
     (if k' = k then (if now w < e then Some t else None) else live w k')"
  by (auto simp: live_def update_conv' split: option.splits)

subsection \<open>Failures of the cache\<close>

text \<open>
  C8. When \<^verbatim>\<open>GET\<close> fails or the stored text does not decode, \<^verbatim>\<open>getFromCache\<close> returns
  \<^verbatim>\<open>null\<close>, as for a key that is not there, and prints a warning. When \<^verbatim>\<open>SET\<close> fails,
  \<^verbatim>\<open>cache\<close> prints a warning and changes nothing else. \<^verbatim>\<open>getTests\<close> never raises a
  store error or a decoding error of the cache: when the cache gives nothing, its result
  is the result of \<^verbatim>\<open>fetchAndParse\<close>, whatever becomes of the write.
\<close>

theorem cache_failures_absorbed:
  "(get_fails w key \<or> live w key = Some Malformed \<longrightarrow>
      getFromCache key w = (JNull, warn (''Unable to get key '' @ key @ '' from cache'') w))
   \<and> (set_fails w key \<or> expire_seconds (REDIS_EXPIRE ev) = None \<longrightarrow>
      cache ev key v w = warn (''Unable to set cache for key '' @ key) w)
   \<and> fst (getTests ev sl w) \<noteq> Inl StoreError \<and> fst (getTests ev sl w) \<noteq> Inl SyntaxError
   \<and> (\<forall>item. find (\<lambda>s. slug s = sl) schools = Some item
         \<and> \<not> truthy (fst (getFromCache (key_of ev sl) w))
       \<longrightarrow> fst (getTests ev sl w) = fst (fetchAndParse (id_num item) (name item) w))"
  using getFromCache_fails [of w key] cache_fails [of w key ev v] getTests_errors [of ev sl w]
    getTests_miss_result [of sl _ ev w]
  by blast


theorem cache_failures_absorbed_witness:
  "get_fails (broken_world sample_page) (key_of sample_env ''hugvisindasvid'')
   \<and> getFromCache (key_of sample_env ''hugvisindasvid'') (broken_world sample_page)
       = (JNull, warn (''Unable to get key '' @ key_of sample_env ''hugvisindasvid'' @ '' from cache'')
                   (broken_world sample_page))
   \<and> set_fails (broken_world sample_page) (key_of sample_env ''hugvisindasvid'')
   \<and> cache sample_env (key_of sample_env ''hugvisindasvid'') (JStr ''x'') (broken_world sample_page)
       = warn (''Unable to set cache for key '' @ key_of sample_env ''hugvisindasvid'')
           (broken_world sample_page)
   \<and> find (\<lambda>s. slug s = ''hugvisindasvid'') schools = Some (schools ! 2)
   \<and> \<not> truthy (fst (getFromCache (key_of sample_env ''hugvisindasvid'') (broken_world sample_page)))
   \<and> fst (getTests sample_env ''hugvisindasvid'' (broken_world sample_page))
       = fst (fetchAndParse (id_num (schools ! 2)) (name (schools ! 2)) (broken_world sample_page))
   \<and> live (sample_world [(''k'', Malformed, 60)] sample_page) ''k'' = Some Malformed
   \<and> getFromCache ''k'' (sample_world [(''k'', Malformed, 60)] sample_page)
       = (JNull, warn (''Unable to get key '' @ ''k'' @ '' from cache'')
                   (sample_world [(''k'', Malformed, 60)] sample_page))"
proof -
  let ?w = "broken_world sample_page" and ?k = "key_of sample_env ''hugvisindasvid''"
  let ?m = "sample_world [(''k'', Malformed, 60)] sample_page"
  have g: "get_fails ?w ?k" and s: "set_fails ?w ?k"
    by (simp_all add: broken_world_def sample_world_def)
  have f: "find (\<lambda>s. slug s = ''hugvisindasvid'') schools = Some (schools ! 2)"
    by (simp add: schools_def)
  have l: "live ?m ''k'' = Some Malformed"
    by (simp add: live_def sample_world_def)
  note t = cache_failures_absorbed [of ?w ?k sample_env "JStr ''x''" "''hugvisindasvid''"]
  from t g have 1: "getFromCache ?k ?w
       = (JNull, warn (''Unable to get key '' @ ?k @ '' from cache'') ?w)" by blast
  from t s have 2: "cache sample_env ?k (JStr ''x'') ?w
       = warn (''Unable to set cache for key '' @ ?k) ?w" by blast
  have 3: "\<not> truthy (fst (getFromCache ?k ?w))" by (simp add: 1)
  from t f 3 have 4: "fst (getTests sample_env ''hugvisindasvid'' ?w)
       = fst (fetchAndParse (id_num (schools ! 2)) (name (schools ! 2)) ?w)" by blast
  from cache_failures_absorbed [of ?m "''k''" sample_env JNull "''x''"] l
  have 5: "getFromCache ''k'' ?m = (JNull, warn (''Unable to get key '' @ ''k'' @ '' from cache'') ?m)"
    by blast
  show ?thesis using g s f l 1 2 3 4 5 by (intro conjI)
qed

subsection \<open>A cached value that is falsy\<close>

text \<open>
  C10. When the text under the key decodes to a falsy value (\<^verbatim>\<open>null\<close>, \<^verbatim>\<open>false\<close>,
  \<^verbatim>\<open>0\<close>, the empty string), \<^verbatim>\<open>getTests\<close> does what it does on a miss: it sends the
  request, and when the request succeeds and \<^verbatim>\<open>SET\<close> works, it returns the fetched
  data, not the stored value, and the key then holds the fetched data.
\<close>

theorem falsy_cached_is_miss:
  assumes "find (\<lambda>s. slug s = sl) schools = Some item"
    and "\<not> get_fails w (key_of ev sl)"
    and "live w (key_of ev sl) = Some (Json v)"
    and "\<not> truthy v"
  shows "getTests ev sl w =
           (case fetchAndParse (id_num item) (name item) w of
              (Inl e, w2) \<Rightarrow> (Inl e, w2)
            | (Inr data, w2) \<Rightarrow> (Inr data, cache ev (key_of ev sl) data w2))
    \<and> requests (snd (getTests ev sl w)) = requests w @ [url_of (id_num item)]
    \<and> (\<forall>data w2 n. fetchAndParse (id_num item) (name item) w = (Inr data, w2)
           \<and> \<not> set_fails w (key_of ev sl) \<and> expire_seconds (REDIS_EXPIRE ev) = Some n
         \<longrightarrow> fst (getTests ev sl w) = Inr data \<and> Inr data \<noteq> (Inr v :: error + jv)
             \<and> live (snd (getTests ev sl w)) (key_of ev sl) = Some (Json (jsonify data)))
    \<and> \<not> truthy JNull \<and> \<not> truthy (JBool False) \<and> \<not> truthy (JNum (Fin 0)) \<and> \<not> truthy (JStr [])"
proof -
  let ?k = "key_of ev sl"
  have c: "getFromCache ?k w = (v, w)"
    using assms(2,3) by (rule getFromCache_value)
  have m: "\<not> truthy (fst (getFromCache ?k w))" using assms(4) by (simp add: c)
  have 1: "getTests ev sl w =
           (case fetchAndParse (id_num item) (name item) w of
              (Inl e, w2) \<Rightarrow> (Inl e, w2)
            | (Inr data, w2) \<Rightarrow> (Inr data, cache ev ?k data w2))"
    using getTests_miss [OF assms(1) m] by (simp add: c)
  obtain r w2 where f: "fetchAndParse (id_num item) (name item) w = (r, w2)"
    by (cases "fetchAndParse (id_num item) (name item) w") auto
  have rq: "requests w2 = requests w @ [url_of (id_num item)]"
    using fetchAndParse_requests [of "id_num item" "name item" w] by (simp add: f)
  have cq: "requests (cache ev ?k d w2) = requests w2" for d
    by (simp add: cache_def asyncSet_def warn_def split: option.splits)
  have 2: "requests (snd (getTests ev sl w)) = requests w @ [url_of (id_num item)]"
    by (cases r) (simp_all add: 1 f rq cq)
  have 3: "fst (getTests ev sl w) = Inr data \<and> Inr data \<noteq> (Inr v :: error + jv)
             \<and> live (snd (getTests ev sl w)) ?k = Some (Json (jsonify data))"
    if h: "fetchAndParse (id_num item) (name item) w = (Inr data, w2')
           \<and> \<not> set_fails w ?k \<and> expire_seconds (REDIS_EXPIRE ev) = Some n" for data w2' n
  proof -
    from h have fp: "fetchAndParse (id_num item) (name item) w = (Inr data, w2')" by simp
    from fetchAndParse_ok [OF fp] obtain ds where
      w2: "w2' = w\<lparr>requests := requests w @ [url_of (id_num item)]\<rparr>"
      and d: "data = JObj [(''heading'', JStr (name item)), (''departments'', JArr ds)]" by auto
    have sf: "\<not> set_fails w2' ?k" using h by (simp add: w2)
    from h have es: "expire_seconds (REDIS_EXPIRE ev) = Some n" by simp
    have pos: "0 < n" using es by (rule expire_seconds_pos)
    have g: "getTests ev sl w = (Inr data, cache ev ?k data w2')"
      by (simp add: 1 fp)
    have "data \<noteq> v" using assms(4) by (auto simp: d)
    moreover have "live (cache ev ?k data w2') ?k = Some (Json (jsonify data))"
      using pos by (simp add: cache_stores [OF sf es] live_update JSON_stringify_def d)
    ultimately show ?thesis by (simp add: g)
  qed
  show ?thesis using 1 2 3 by simp
qed


theorem falsy_cached_is_miss_witness:
  "find (\<lambda>s. slug s = ''hugvisindasvid'') schools = Some (schools ! 2)
   \<and> \<not> get_fails (sample_world [(''proftafla:hugvisindasvid'', Json JNull, 60)] sample_page)
          (key_of sample_env ''hugvisindasvid'')
   \<and> live (sample_world [(''proftafla:hugvisindasvid'', Json JNull, 60)] sample_page)
          (key_of sample_env ''hugvisindasvid'') = Some (Json JNull)
   \<and> \<not> truthy JNull
   \<and> requests (snd (getTests sample_env ''hugvisindasvid''
                       (sample_world [(''proftafla:hugvisindasvid'', Json JNull, 60)] sample_page)))
       = [url_of 3]
   \<and> fst (getTests sample_env ''hugvisindasvid''
             (sample_world [(''proftafla:hugvisindasvid'', Json JNull, 60)] sample_page))
       = Inr (JObj [(''heading'', JStr (name (schools ! 2))),
                    (''departments'', JArr (map department (select_tag ''h3'' (page sample_listings))))])
   \<and> live (snd (getTests sample_env ''hugvisindasvid''
                   (sample_world [(''proftafla:hugvisindasvid'', Json JNull, 60)] sample_page)))
          (key_of sample_env ''hugvisindasvid'')
       = Some (Json (jsonify (JObj [(''heading'', JStr (name (schools ! 2))),
                    (''departments'', JArr (map department (select_tag ''h3'' (page sample_listings))))])))"
proof -
  let ?w = "sample_world [(''proftafla:hugvisindasvid'', Json JNull, 60)] sample_page"
  let ?k = "key_of sample_env ''hugvisindasvid''"
  let ?d = "JObj [(''heading'', JStr (name (schools ! 2))),
                    (''departments'', JArr (map department (select_tag ''h3'' (page sample_listings))))]"
  have f: "find (\<lambda>s. slug s = ''hugvisindasvid'') schools = Some (schools ! 2)"
    by (simp add: schools_def)
  have i: "id_num (schools ! 2) = 3" by (simp add: schools_def)
  have g: "\<not> get_fails ?w ?k" by (simp add: sample_world_def)
  have l: "live ?w ?k = Some (Json JNull)"
    by (simp add: live_def sample_world_def key_of_def redisPrefix_def sample_env_def)
  have n: "\<not> truthy JNull" by simp
  note t = falsy_cached_is_miss [OF f g l n]
  have fp: "fetchAndParse (id_num (schools ! 2)) (name (schools ! 2)) ?w
              = (Inr ?d, ?w\<lparr>requests := requests ?w @ [url_of (id_num (schools ! 2))]\<rparr>)"
    by (simp add: fetchAndParse_def sample_world_def sample_page_def)
  have sf: "\<not> set_fails ?w ?k" by (simp add: sample_world_def)
  have es: "expire_seconds (REDIS_EXPIRE sample_env) = Some 60"
    by (simp add: expire_seconds_def sample_env_def is_digit_def digit_val_def)
  have rq: "requests ?w = []" by (simp add: sample_world_def)
  from t have "requests (snd (getTests sample_env ''hugvisindasvid'' ?w))
                 = requests ?w @ [url_of (id_num (schools ! 2))]"
    by (rule conjunct1 [OF conjunct2])
  then have 2: "requests (snd (getTests sample_env ''hugvisindasvid'' ?w)) = [url_of 3]"
    by (simp only: i rq append_Nil)
  from t fp sf es have 3: "fst (getTests sample_env ''hugvisindasvid'' ?w) = Inr ?d
     \<and> live (snd (getTests sample_env ''hugvisindasvid'' ?w)) ?k = Some (Json (jsonify ?d))"
    by blast
  show ?thesis using f g l n 2 3 by (intro conjI) simp_all
qed


subsection \<open>The counters of \<^verbatim>\<open>getStats\<close>\<close>

text \<open>
  On results of the shape \<^verbatim>\<open>fetchAndParse\<close> builds, the three nested loops of
  \<^verbatim>\<open>getStats\<close> are \<open>tally\<close> over the student numbers of all tests, in document order.
\<close>

lemma count_test_obj:
  "count_test (test_obj t) (counters_of q) = Inr (counters_of (tally [students t] q))"
  by (cases t; cases q) (simp add: count_test_def counters_of_def js_add_def js_gt_def js_lt_def prim_lt_def)

lemma tally_append: "tally (xs @ ys) q = tally ys (tally xs q)"
  by (induction xs arbitrary: q) auto

lemma forEach_count_test:
  "forEach count_test (map test_obj ts) (counters_of q) = Inr (counters_of (tally (map students ts) q))"
proof (induction ts arbitrary: q)
  case Nil
  show ?case by simp
next
  case (Cons t ts)
  obtain mn mx n sm where q: "q = (mn, mx, n, sm)" by (cases q) auto
  show ?case
    using Cons.IH [of "tally [students t] q"]
    by (simp add: count_test_obj q)
qed

lemma count_department_obj:
  "count_department (department_obj d) (counters_of q) = Inr (counters_of (tally (map students (tests d)) q))"
  by (cases d) (simp add: count_department_def forEach_count_test)

lemma forEach_count_department:
  "forEach count_department (map department_obj ds) (counters_of q)
     = Inr (counters_of (tally (map students (concat (map tests ds))) q))"
proof (induction ds arbitrary: q)
  case Nil
  show ?case by simp
next
  case (Cons d ds)
  show ?case
    using Cons.IH [of "tally (map students (tests d)) q"]
    by (simp add: count_department_obj tally_append)
qed

lemma count_school_obj:
  "count_school (division_obj v) (counters_of q)
     = Inr (counters_of (tally (map students (concat (map tests (departments v)))) q))"
  by (cases v) (simp add: count_school_def forEach_count_department)

lemma forEach_count_school:
  "forEach count_school (map division_obj divs) (counters_of q)
     = Inr (counters_of (tally (map students (all_tests divs)) q))"
proof (induction divs arbitrary: q)
  case Nil
  show ?case by (simp add: all_tests_def)
next
  case (Cons v divs)
  show ?case
    using Cons.IH [of "tally (map students (concat (map tests (departments v)))) q"]
    by (simp add: count_school_obj tally_append all_tests_def)
qed

lemma summarise_divisions:
  "summarise (map division_obj divs) =
     (case tally (map students (all_tests divs)) (Fin 999, Fin 0, Fin 0, Fin 0) of
        (mn, mx, n, sm) \<Rightarrow>
          Inr \<lparr>min_students = JNum mn, max_students = JNum mx, numTests = n,
               numStudents = JNum sm, averageStudents = toFixed 2 (num_div sm n)\<rparr>)"
proof -
  have start: "\<lparr>min_students = JNum (Fin 999), max_students = JNum (Fin 0),
              numTests = Fin 0, numStudents = JNum (Fin 0)\<rparr> = counters_of (Fin 999, Fin 0, Fin 0, Fin 0)"
    by (simp add: counters_of_def)
  show ?thesis
    unfolding summarise_def start forEach_count_school
    by (simp add: counters_of_def js_div_def split: prod.splits)
qed


lemma getStats_fst:
  "fst (getStats ev w) =
     (case Promise_all (fst (get_all ev (map slug schools) w)) of
        Inl e \<Rightarrow> Inl e
      | Inr all \<Rightarrow> summarise all)"
  by (simp add: getStats_def split: prod.splits sum.splits)

lemma num_le_trans:
  "a \<noteq> NaN \<Longrightarrow> b \<noteq> NaN \<Longrightarrow> c \<noteq> NaN \<Longrightarrow> \<not> num_lt b a \<Longrightarrow> \<not> num_lt c b \<Longrightarrow> \<not> num_lt c a"
  by (cases a; cases b; cases c) auto

lemma num_le_antisym:
  "a \<noteq> NaN \<Longrightarrow> b \<noteq> NaN \<Longrightarrow> \<not> num_lt b a \<Longrightarrow> \<not> num_lt a b \<Longrightarrow> a = b"
  by (cases a; cases b) auto

lemma num_lt_irrefl: "\<not> num_lt a a"
  by (cases a) auto

lemma num_lt_asym: "num_lt a b \<Longrightarrow> \<not> num_lt b a"
  by (cases a; cases b) auto

lemma tally_min:
  assumes "mn \<noteq> NaN" and "\<forall>x \<in> set xs. x \<noteq> NaN"
  shows "is_min (fst (tally xs (mn, mx, n, sm))) (mn # xs)"
  using assms
proof (induction xs arbitrary: mn mx n sm)
  case Nil
  show ?case by (simp add: is_min_def num_lt_irrefl)
next
  case (Cons x xs)
  let ?mn = "if num_lt x mn then x else mn"
  let ?r = "fst (tally (x # xs) (mn, mx, n, sm))"
  have nn: "?mn \<noteq> NaN" "x \<noteq> NaN" "\<forall>y \<in> set xs. y \<noteq> NaN" using Cons.prems by auto
  have ih: "is_min ?r (?mn # xs)"
    using Cons.IH [of ?mn] nn by simp
  then have r: "?r \<in> set (?mn # xs)" and low: "\<forall>y \<in> set (?mn # xs). \<not> num_lt y ?r"
    by (simp_all add: is_min_def)
  from r nn have rn: "?r \<noteq> NaN" by auto
  from low have l0: "\<not> num_lt ?mn ?r" by simp
  have a: "\<not> num_lt mn ?mn" "\<not> num_lt x ?mn"
    by (auto simp: num_lt_irrefl num_lt_asym)
  have "\<not> num_lt mn ?r"
    using num_le_trans [OF rn nn(1) Cons.prems(1) l0 a(1)] .
  moreover have "\<not> num_lt x ?r"
    using num_le_trans [OF rn nn(1) nn(2) l0 a(2)] .
  moreover have "?r \<in> set (mn # x # xs)" using r by (auto split: if_splits)
  ultimately show ?case using low by (simp add: is_min_def)
qed

lemma tally_max:
  assumes "mx \<noteq> NaN" and "\<forall>x \<in> set xs. x \<noteq> NaN"
  shows "is_max (fst (snd (tally xs (mn, mx, n, sm)))) (mx # xs)"
  using assms
proof (induction xs arbitrary: mn mx n sm)
  case Nil
  show ?case by (simp add: is_max_def num_lt_irrefl)
next
  case (Cons x xs)
  let ?mx = "if num_lt mx x then x else mx"
  let ?r = "fst (snd (tally (x # xs) (mn, mx, n, sm)))"
  have nn: "?mx \<noteq> NaN" "x \<noteq> NaN" "\<forall>y \<in> set xs. y \<noteq> NaN" using Cons.prems by auto
  have ih: "is_max ?r (?mx # xs)"
    using Cons.IH [of ?mx] nn by simp
  then have r: "?r \<in> set (?mx # xs)" and high: "\<forall>y \<in> set (?mx # xs). \<not> num_lt ?r y"
    by (simp_all add: is_max_def)
  from r nn have rn: "?r \<noteq> NaN" by auto
  from high have l0: "\<not> num_lt ?r ?mx" by simp
  have a: "\<not> num_lt ?mx mx" "\<not> num_lt ?mx x"
    by (auto simp: num_lt_irrefl num_lt_asym)
  have "\<not> num_lt ?r mx"
    using num_le_trans [OF Cons.prems(1) nn(1) rn a(1) l0] .
  moreover have "\<not> num_lt ?r x"
    using num_le_trans [OF nn(2) nn(1) rn a(2) l0] .
  moreover have "?r \<in> set (mx # x # xs)" using r by (auto split: if_splits)
  ultimately show ?case using high by (simp add: is_max_def)
qed

lemma is_min_seed:
  assumes "is_min m (s # xs)" and "\<forall>x \<in> set xs. x \<noteq> NaN" and "s \<noteq> NaN"
    and "\<exists>x \<in> set xs. \<not> num_lt s x"
  shows "is_min m xs"
proof -
  from assms(1) have m: "m \<in> set (s # xs)" and low: "\<forall>y \<in> set xs. \<not> num_lt y m" "\<not> num_lt s m"
    by (simp_all add: is_min_def)
  from assms(4) obtain x where x: "x \<in> set xs" "\<not> num_lt s x" by auto
  have "m \<in> set xs"
  proof (cases "m = s")
    case True
    with low x have "\<not> num_lt x s" by simp
    with x assms(2,3) have "x = s" using num_le_antisym [of x s] by auto
    with x True show ?thesis by simp
  next
    case False
    with m show ?thesis by simp
  qed
  with low show ?thesis by (simp add: is_min_def)
qed

lemma is_max_seed:
  assumes "is_max m (s # xs)" and "\<forall>x \<in> set xs. x \<noteq> NaN" and "s \<noteq> NaN"
    and "\<exists>x \<in> set xs. \<not> num_lt x s"
  shows "is_max m xs"
proof -
  from assms(1) have m: "m \<in> set (s # xs)" and high: "\<forall>y \<in> set xs. \<not> num_lt m y" "\<not> num_lt m s"
    by (simp_all add: is_max_def)
  from assms(4) obtain x where x: "x \<in> set xs" "\<not> num_lt x s" by auto
  have "m \<in> set xs"
  proof (cases "m = s")
    case True
    with high x have "\<not> num_lt s x" by simp
    with x assms(2,3) have "x = s" using num_le_antisym [of x s] by auto
    with x True show ?thesis by simp
  next
    case False
    with m show ?thesis by simp
  qed
  with high show ?thesis by (simp add: is_max_def)
qed


lemma getStats_divisions:
  assumes "Promise_all (fst (get_all ev (map slug schools) w)) = Inr (map division_obj divs)"
  shows "fst (getStats ev w) =
     (case tally (map students (all_tests divs)) (Fin 999, Fin 0, Fin 0, Fin 0) of
        (mn, mx, n, sm) \<Rightarrow>
          Inr \<lparr>min_students = JNum mn, max_students = JNum mx, numTests = n,
               numStudents = JNum sm, averageStudents = toFixed 2 (num_div sm n)\<rparr>)"
  by (simp add: getStats_fst assms summarise_divisions)

subsection \<open>No test at all\<close>

text \<open>
  C6. When the results that the \<^verbatim>\<open>getTests\<close> calls deliver hold no test, \<^verbatim>\<open>getStats\<close>
  returns the seeds, 999 for the minimum and 0 for the maximum, no tests, no students,
  and as the average the text \<^verbatim>\<open>NaN\<close>: the division of 0 by 0 is not guarded, it yields
  NaN, and \<^verbatim>\<open>toFixed\<close> prints NaN as that text.
\<close>

theorem no_tests_stats:
  assumes "Promise_all (fst (get_all ev (map slug schools) w)) = Inr (map division_obj divs)"
    and "all_tests divs = []"
  shows "fst (getStats ev w) =
           Inr \<lparr>min_students = JNum (Fin 999), max_students = JNum (Fin 0), numTests = Fin 0,
                numStudents = JNum (Fin 0), averageStudents = ''NaN''\<rparr>
         \<and> js_div (JNum (Fin 0)) (JNum (Fin 0)) = Inr NaN \<and> toFixed 2 NaN = ''NaN''"
  by (simp add: getStats_divisions [OF assms(1)] assms(2) js_div_def toFixed_def)

theorem no_tests_stats_witness:
  "Promise_all (fst (get_all sample_env (map slug schools) (sample_world [] empty_page)))
     = Inr (map division_obj empty_divisions)
   \<and> all_tests empty_divisions = []
   \<and> fst (getStats sample_env (sample_world [] empty_page)) =
           Inr \<lparr>min_students = JNum (Fin 999), max_students = JNum (Fin 0), numTests = Fin 0,
                numStudents = JNum (Fin 0), averageStudents = ''NaN''\<rparr>"
proof -
  have d: "Promise_all (fst (get_all sample_env (map slug schools) (sample_world [] empty_page)))
     = Inr (map division_obj empty_divisions)"
    by code_simp
  have e: "all_tests empty_divisions = []"
    by code_simp
  from no_tests_stats [OF d e] d e show ?thesis by simp
qed

subsection \<open>Three tests with 3, 10 and 1 students\<close>

lemma tally_perms:
  "tally [Fin 3, Fin 10, Fin 1] (Fin 999, Fin 0, Fin 0, Fin 0) = (Fin 1, Fin 10, Fin 3, Fin 14)"
  "tally [Fin 3, Fin 1, Fin 10] (Fin 999, Fin 0, Fin 0, Fin 0) = (Fin 1, Fin 10, Fin 3, Fin 14)"
  "tally [Fin 10, Fin 3, Fin 1] (Fin 999, Fin 0, Fin 0, Fin 0) = (Fin 1, Fin 10, Fin 3, Fin 14)"
  "tally [Fin 10, Fin 1, Fin 3] (Fin 999, Fin 0, Fin 0, Fin 0) = (Fin 1, Fin 10, Fin 3, Fin 14)"
  "tally [Fin 1, Fin 3, Fin 10] (Fin 999, Fin 0, Fin 0, Fin 0) = (Fin 1, Fin 10, Fin 3, Fin 14)"
  "tally [Fin 1, Fin 10, Fin 3] (Fin 999, Fin 0, Fin 0, Fin 0) = (Fin 1, Fin 10, Fin 3, Fin 14)"
  by code_simp+

lemma three_of_three:
  assumes "length xs = 3" and "set xs = {p, q, r}" and "p \<noteq> q" "p \<noteq> r" "q \<noteq> r"
  shows "xs \<in> {[p, q, r], [p, r, q], [q, p, r], [q, r, p], [r, p, q], [r, q, p]}"
proof -
  from assms(1) obtain a b c where xs: "xs = [a, b, c]"
    by (auto simp: length_Suc_conv numeral_3_eq_3)
  from assms(2) have m: "a \<in> {p, q, r}" "b \<in> {p, q, r}" "c \<in> {p, q, r}"
    and c: "p \<in> {a, b, c}" "q \<in> {a, b, c}" "r \<in> {a, b, c}"
    unfolding xs by auto
  from m c assms(3-5) show ?thesis unfolding xs by auto
qed

lemma tally_any_order:
  assumes "length xs = 3" and "set xs = {Fin 3, Fin 10, Fin 1}"
  shows "tally xs (Fin 999, Fin 0, Fin 0, Fin 0) = (Fin 1, Fin 10, Fin 3, Fin 14)"
proof -
  have "xs \<in> {[Fin 3, Fin 10, Fin 1], [Fin 3, Fin 1, Fin 10], [Fin 10, Fin 3, Fin 1],
              [Fin 10, Fin 1, Fin 3], [Fin 1, Fin 3, Fin 10], [Fin 1, Fin 10, Fin 3]}"
    using three_of_three [OF assms, simplified] by simp
  then show ?thesis
    using tally_perms by (elim insertE emptyE) (simp_all only:)
qed

lemma average_14_3: "toFixed 2 (num_div (Fin 14) (Fin 3)) = ''4.67''"
  by code_simp

text \<open>
  C2. When the results hold three tests with 3, 10 and 1 students, in whatever
  order and however spread over divisions and departments, \<^verbatim>\<open>getStats\<close> returns 3 tests,
  14 students, the minimum 1, the maximum 10 and the average \<^verbatim>\<open>4.67\<close>, a text with two
  decimals.
\<close>

theorem counted_stats:
  assumes "Promise_all (fst (get_all ev (map slug schools) w)) = Inr (map division_obj divs)"
    and "length (all_tests divs) = 3"
    and "set (map students (all_tests divs)) = {Fin 3, Fin 10, Fin 1}"
  shows "fst (getStats ev w) =
           Inr \<lparr>min_students = JNum (Fin 1), max_students = JNum (Fin 10), numTests = Fin 3,
                numStudents = JNum (Fin 14), averageStudents = ''4.67''\<rparr>"
proof -
  have "tally (map students (all_tests divs)) (Fin 999, Fin 0, Fin 0, Fin 0)
          = (Fin 1, Fin 10, Fin 3, Fin 14)"
    using assms(2,3) by (intro tally_any_order) simp_all
  then show ?thesis
    unfolding getStats_divisions [OF assms(1)]
    by (simp only: prod.case average_14_3)
qed

theorem counted_stats_witness:
  "Promise_all (fst (get_all sample_env (map slug schools) (sample_world counted_store Unreachable)))
     = Inr (map division_obj counted_divisions)
   \<and> length (all_tests counted_divisions) = 3
   \<and> set (map students (all_tests counted_divisions)) = {Fin 3, Fin 10, Fin 1}
   \<and> fst (getStats sample_env (sample_world counted_store Unreachable)) =
           Inr \<lparr>min_students = JNum (Fin 1), max_students = JNum (Fin 10), numTests = Fin 3,
                numStudents = JNum (Fin 14), averageStudents = ''4.67''\<rparr>"
proof -
  have d: "Promise_all (fst (get_all sample_env (map slug schools) (sample_world counted_store Unreachable)))
     = Inr (map division_obj counted_divisions)"
    by code_simp
  have m: "map students (all_tests counted_divisions) = [Fin 3, Fin 10, Fin 1]"
    by code_simp
  have l: "length (all_tests counted_divisions) = 3"
    using arg_cong [OF m, of length] by simp
  have e: "set (map students (all_tests counted_divisions)) = {Fin 3, Fin 10, Fin 1}"
    unfolding m by simp
  from counted_stats [OF d l e] d l e show ?thesis by (intro conjI)
qed

subsection \<open>Minimum and maximum\<close>

text \<open>
  C3, as the claim reads, fails: the minimum starts at 999 and a test only lowers it.
  With a single test of 1000 students on the page of every school, \<^verbatim>\<open>getStats\<close>
  returns the minimum 999, which is the number of students of no test.
\<close>

theorem crowded_min_counterexample:
  "Promise_all (fst (get_all sample_env (map slug schools) (sample_world [] crowded_page)))
     = Inr (map division_obj crowded_divisions)
   \<and> map students (all_tests crowded_divisions) = [Fin 1000, Fin 1000, Fin 1000, Fin 1000, Fin 1000]
   \<and> fst (getStats sample_env (sample_world [] crowded_page)) =
           Inr \<lparr>min_students = JNum (Fin 999), max_students = JNum (Fin 1000), numTests = Fin 5,
                numStudents = JNum (Fin 5000), averageStudents = ''1000.00''\<rparr>
   \<and> \<not> is_min (Fin 999) [Fin 1000, Fin 1000, Fin 1000, Fin 1000, Fin 1000]"
  by code_simp

lemma getStats_min_max_seeded:
  assumes "Promise_all (fst (get_all ev (map slug schools) w)) = Inr (map division_obj divs)"
    and "\<forall>t \<in> set (all_tests divs). students t \<noteq> NaN"
  shows "\<exists>st m M. fst (getStats ev w) = Inr st
     \<and> min_students st = JNum m \<and> max_students st = JNum M
     \<and> is_min m (Fin 999 # map students (all_tests divs))
     \<and> is_max M (Fin 0 # map students (all_tests divs))"
proof -
  let ?xs = "map students (all_tests divs)"
  obtain mn mx n sm where t: "tally ?xs (Fin 999, Fin 0, Fin 0, Fin 0) = (mn, mx, n, sm)"
    by (cases "tally ?xs (Fin 999, Fin 0, Fin 0, Fin 0)") auto
  have nn: "\<forall>x \<in> set ?xs. x \<noteq> NaN" using assms(2) by auto
  have a: "is_min mn (Fin 999 # ?xs)"
    using tally_min [of "Fin 999" ?xs "Fin 0" "Fin 0" "Fin 0"] nn by (simp add: t)
  have b: "is_max mx (Fin 0 # ?xs)"
    using tally_max [of "Fin 0" ?xs "Fin 999" "Fin 0" "Fin 0"] nn by (simp add: t)
  have "fst (getStats ev w) =
          Inr \<lparr>min_students = JNum mn, max_students = JNum mx, numTests = n,
               numStudents = JNum sm, averageStudents = toFixed 2 (num_div sm n)\<rparr>"
    by (simp add: getStats_divisions [OF assms(1)] t)
  with a b show ?thesis by auto
qed

text \<open>
  C3, amended. When every number of students in the results is a number other than NaN,
  one of them is at most 999 and one of them is at least 0, the minimum returned by
  \<^verbatim>\<open>getStats\<close> is the minimum of the student numbers of all tests and the maximum returned
  is their maximum.
\<close>

theorem min_max_within_seeds:
  assumes "Promise_all (fst (get_all ev (map slug schools) w)) = Inr (map division_obj divs)"
    and "\<forall>t \<in> set (all_tests divs). students t \<noteq> NaN"
    and "\<exists>t \<in> set (all_tests divs). \<not> num_lt (Fin 999) (students t)"
    and "\<exists>t \<in> set (all_tests divs). \<not> num_lt (students t) (Fin 0)"
  shows "\<exists>st m M. fst (getStats ev w) = Inr st
     \<and> min_students st = JNum m \<and> max_students st = JNum M
     \<and> is_min m (map students (all_tests divs))
     \<and> is_max M (map students (all_tests divs))"
proof -
  let ?xs = "map students (all_tests divs)"
  have nn: "\<forall>x \<in> set ?xs. x \<noteq> NaN" using assms(2) by auto
  from getStats_min_max_seeded [OF assms(1,2)] obtain st m M where
    st: "fst (getStats ev w) = Inr st" "min_students st = JNum m" "max_students st = JNum M"
    and a: "is_min m (Fin 999 # ?xs)" and b: "is_max M (Fin 0 # ?xs)"
    by blast
  have "is_min m ?xs" using is_min_seed [OF a nn] assms(3) by auto
  moreover have "is_max M ?xs" using is_max_seed [OF b nn] assms(4) by auto
  ultimately show ?thesis using st by blast
qed

theorem min_max_within_seeds_witness:
  "Promise_all (fst (get_all sample_env (map slug schools) (sample_world counted_store Unreachable)))
     = Inr (map division_obj counted_divisions)
   \<and> list_all (\<lambda>t. students t \<noteq> NaN) (all_tests counted_divisions)
   \<and> list_ex (\<lambda>t. \<not> num_lt (Fin 999) (students t)) (all_tests counted_divisions)
   \<and> list_ex (\<lambda>t. \<not> num_lt (students t) (Fin 0)) (all_tests counted_divisions)
   \<and> is_min (Fin 1) (map students (all_tests counted_divisions))
   \<and> is_max (Fin 10) (map students (all_tests counted_divisions))"
proof -
  let ?w = "sample_world counted_store Unreachable"
  have d: "Promise_all (fst (get_all sample_env (map slug schools) ?w))
     = Inr (map division_obj counted_divisions)"
    by code_simp
  have f: "list_all (\<lambda>t. students t \<noteq> NaN) (all_tests counted_divisions)" by code_simp
  have g: "list_ex (\<lambda>t. \<not> num_lt (Fin 999) (students t)) (all_tests counted_divisions)" by code_simp
  have h: "list_ex (\<lambda>t. \<not> num_lt (students t) (Fin 0)) (all_tests counted_divisions)" by code_simp
  have r: "fst (getStats sample_env ?w) =
           Inr \<lparr>min_students = JNum (Fin 1), max_students = JNum (Fin 10), numTests = Fin 3,
                numStudents = JNum (Fin 14), averageStudents = ''4.67''\<rparr>"
    by code_simp
  from f have f': "\<forall>t \<in> set (all_tests counted_divisions). students t \<noteq> NaN"
    by (simp add: list_all_iff)
  from g have g': "\<exists>t \<in> set (all_tests counted_divisions). \<not> num_lt (Fin 999) (students t)"
    by (simp add: list_ex_iff)
  from h have h': "\<exists>t \<in> set (all_tests counted_divisions). \<not> num_lt (students t) (Fin 0)"
    by (simp add: list_ex_iff)
  from min_max_within_seeds [OF d f' g' h'] r
  have "is_min (Fin 1) (map students (all_tests counted_divisions))
      \<and> is_max (Fin 10) (map students (all_tests counted_divisions))"
    by auto
  with d f g h show ?thesis by simp
qed


subsection \<open>Clearing the cache\<close>

lemma tokens_plain: "plain p \<Longrightarrow> tokens (p @ q) = map Lit p @ tokens q"
  by (induction p) (auto simp: plain_def)

lemma match_star: "match [Star] s"
  by (induction s) auto

lemma match_lits: "match (map Lit q @ ts) s = (prefix q s \<and> match ts (drop (length q) s))"
proof (induction q arbitrary: s)
  case Nil
  show ?case by simp
next
  case (Cons c q)
  show ?case by (cases s) (auto simp: Cons.IH)
qed

lemma glob_prefix: "plain p \<Longrightarrow> glob (p @ '':*'') k = prefix (p @ '':'') k"
proof -
  assume "plain p"
  then have "plain (p @ '':'')" by (simp add: plain_def)
  then have "tokens ((p @ '':'') @ ''*'') = map Lit (p @ '':'') @ [Star]"
    by (simp only: tokens_plain) simp
  then show ?thesis
    using match_lits [of "p @ '':''" "[Star]" k] by (simp add: glob_def match_star)
qed

lemma asyncDel_keeps:
  "asyncDel k w = Inr w' \<Longrightarrow> now w' = now w \<and> del_fails w' = del_fails w \<and> warnings w' = warnings w"
  by (auto simp: asyncDel_def split: if_splits)

lemma del_all_keeps:
  "now (snd (del_all ks w)) = now w \<and> del_fails (snd (del_all ks w)) = del_fails w"
proof (induction ks arbitrary: w)
  case Nil
  show ?case by simp
next
  case (Cons k ks)
  show ?case
    by (cases "del_fails w k") (simp_all add: asyncDel_def Cons.IH)
qed

lemma del_all_failed: "fst (del_all ks w) = (\<exists>k \<in> set ks. del_fails w k)"
proof (induction ks arbitrary: w)
  case Nil
  show ?case by simp
next
  case (Cons k ks)
  show ?case
    by (cases "del_fails w k") (simp_all add: asyncDel_def Cons.IH)
qed

lemma del_all_store:
  "map_of (store (snd (del_all ks w))) k =
     (if k \<in> set ks \<and> \<not> del_fails w k then None else map_of (store w) k)"
proof (induction ks arbitrary: w)
  case Nil
  show ?case by simp
next
  case (Cons k' ks)
  show ?case
    by (cases "del_fails w k'") (auto simp: asyncDel_def Cons.IH delete_conv')
qed

lemma del_all_live:
  "live (snd (del_all ks w)) k = (if k \<in> set ks \<and> \<not> del_fails w k then None else live w k)"
  by (auto simp: live_def del_all_store del_all_keeps split: option.splits)

lemma live_warn [simp]: "live (warn m w) k = live w k"
  by (simp add: live_def warn_def split: option.splits)

lemma live_in_store: "live w k \<noteq> None \<Longrightarrow> k \<in> set (map fst (store w))"
  by (auto simp: live_def split: option.splits dest: map_of_SomeD intro: rev_image_eqI)

text \<open>
  C9. \<^verbatim>\<open>clearCache\<close> is to list all keys under the configured prefix, delete them and
  return true, and to return false when listing or a deletion fails. The program does
  not do so for every prefix: \<^verbatim>\<open>getTests\<close> writes its keys with the prefix taken
  literally, while \<^verbatim>\<open>clearCache\<close> puts the same prefix into the pattern of \<^verbatim>\<open>KEYS\<close>
  without escaping it. With the prefix \<^verbatim>\<open>[x]\<close>, \<^verbatim>\<open>getTests\<close> writes the key
  \<^verbatim>\<open>[x]:hugvisindasvid\<close>, the pattern \<^verbatim>\<open>[x]:*\<close> asks for the keys that start with
  \<^verbatim>\<open>x:\<close>, and with every redis command working \<^verbatim>\<open>clearCache\<close> returns true while
  the key is still there.
\<close>

theorem clearCache_leaves_bracket_key:
  "key_of bracket_env ''hugvisindasvid'' = ''[x]:hugvisindasvid''
   \<and> live (snd (getTests bracket_env ''hugvisindasvid'' (sample_world [] sample_page)))
        ''[x]:hugvisindasvid'' \<noteq> None
   \<and> fst (clearCache bracket_env
            (snd (getTests bracket_env ''hugvisindasvid'' (sample_world [] sample_page))))
   \<and> live (snd (clearCache bracket_env
                  (snd (getTests bracket_env ''hugvisindasvid'' (sample_world [] sample_page)))))
        ''[x]:hugvisindasvid'' \<noteq> None"
  by code_simp

text \<open>
  How far the fault reaches. A prefix with none of the characters \<^verbatim>\<open>*\<close>, \<^verbatim>\<open>?\<close>, \<^verbatim>\<open>[\<close> and
  backslash is a pattern for itself, and for such a prefix the program keeps its
  promise: if listing the keys fails, \<^verbatim>\<open>clearCache\<close> returns false and deletes nothing;
  otherwise it sends a \<^verbatim>\<open>DEL\<close> for every key under the prefix, returns true exactly when
  none of them fails, and afterwards every key under the prefix whose \<^verbatim>\<open>DEL\<close> worked is
  gone while every other key is as before.
\<close>

lemma clearCache_plain_prefix:
  assumes "plain (redisPrefix ev)"
  shows "(keys_fails w \<longrightarrow> clearCache ev w = (False, warn ''Unable to clear cache'' w))
    \<and> (\<not> keys_fails w \<longrightarrow>
          fst (clearCache ev w)
            = (\<forall>k. prefix (redisPrefix ev @ '':'') k \<and> live w k \<noteq> None \<longrightarrow> \<not> del_fails w k)
        \<and> (\<forall>k. live (snd (clearCache ev w)) k
                 = (if prefix (redisPrefix ev @ '':'') k \<and> \<not> del_fails w k then None
                    else live w k)))"
proof (intro conjI impI)
  assume "keys_fails w"
  then show "clearCache ev w = (False, warn ''Unable to clear cache'' w)"
    by (simp add: clearCache_def asyncKeys_def)
next
  let ?p = "redisPrefix ev @ '':''"
  define ks where "ks = filter (\<lambda>k. live w k \<noteq> None \<and> prefix ?p k) (map fst (store w))"
  assume nf: "\<not> keys_fails w"
  have keys: "asyncKeys (redisPrefix ev @ '':*'') w = Inr ks"
    using nf by (simp add: asyncKeys_def glob_prefix [OF assms] ks_def)
  have mem: "k \<in> set ks \<longleftrightarrow> prefix ?p k \<and> live w k \<noteq> None" for k
    using live_in_store [of w k] by (auto simp: ks_def)
  obtain f w' where d: "del_all ks w = (f, w')" by (cases "del_all ks w") auto
  have f: "f = (\<exists>k \<in> set ks. del_fails w k)"
    using del_all_failed [of ks w] unfolding d fst_conv .
  have "live w' k = (if k \<in> set ks \<and> \<not> del_fails w k then None else live w k)" for k
    using del_all_live [of ks w k] unfolding d snd_conv .
  then have w': "live w' k = (if prefix ?p k \<and> \<not> del_fails w k then None else live w k)" for k
    by (cases "live w k = None") (simp_all add: mem)
  have "clearCache ev w =
          (case del_all ks w of
             (True, w') \<Rightarrow> (False, warn ''Unable to clear cache'' w')
           | (False, w') \<Rightarrow> (True, w'))"
    unfolding clearCache_def keys by (simp only: sum.case)
  then have c: "clearCache ev w = (\<not> f, if f then warn ''Unable to clear cache'' w' else w')"
    unfolding d by (cases f) simp_all
  show "fst (clearCache ev w)
            = (\<forall>k. prefix ?p k \<and> live w k \<noteq> None \<longrightarrow> \<not> del_fails w k)"
    unfolding c f by (auto simp: mem)
  show "\<forall>k. live (snd (clearCache ev w)) k
                 = (if prefix ?p k \<and> \<not> del_fails w k then None else live w k)"
    unfolding c by (cases f) (simp_all add: w')
qed

lemma clearCache_default_prefix:
  "plain (redisPrefix sample_env)
   \<and> \<not> keys_fails (sample_world ((''session:42'', Json (JStr ''abc''), 60) # counted_store) Unreachable)
   \<and> fst (clearCache sample_env
            (sample_world ((''session:42'', Json (JStr ''abc''), 60) # counted_store) Unreachable))
   \<and> live (sample_world ((''session:42'', Json (JStr ''abc''), 60) # counted_store) Unreachable)
        ''proftafla:hugvisindasvid'' \<noteq> None
   \<and> live (snd (clearCache sample_env
                  (sample_world ((''session:42'', Json (JStr ''abc''), 60) # counted_store) Unreachable)))
        ''proftafla:hugvisindasvid'' = None
   \<and> live (snd (clearCache sample_env
                  (sample_world ((''session:42'', Json (JStr ''abc''), 60) # counted_store) Unreachable)))
        ''session:42'' = Some (Json (JStr ''abc''))
   \<and> keys_fails (broken_world sample_page)
   \<and> clearCache sample_env (broken_world sample_page)
       = (False, warn ''Unable to clear cache'' (broken_world sample_page))"
proof -
  let ?w = "sample_world ((''session:42'', Json (JStr ''abc''), 60) # counted_store) Unreachable"
  have p: "plain (redisPrefix sample_env)"
    by (simp add: plain_def redisPrefix_def sample_env_def)
  have px: "redisPrefix sample_env @ '':'' = ''proftafla:''"
    by (simp add: redisPrefix_def sample_env_def)
  have nk: "\<not> keys_fails ?w" and df: "del_fails ?w = (\<lambda>k. False)"
    by (simp_all add: sample_world_def)
  have kb: "keys_fails (broken_world sample_page)"
    by (simp add: broken_world_def)
  have l1: "live ?w ''proftafla:hugvisindasvid'' \<noteq> None" by code_simp
  have l2: "live ?w ''session:42'' = Some (Json (JStr ''abc''))" by code_simp
  note t = clearCache_plain_prefix [OF p, of ?w]
  from t nk have a: "fst (clearCache sample_env ?w)" by (simp add: df)
  from t nk have b: "live (snd (clearCache sample_env ?w)) k
         = (if prefix (redisPrefix sample_env @ '':'') k \<and> \<not> del_fails ?w k then None
            else live ?w k)" for k by blast
  have c: "live (snd (clearCache sample_env ?w)) ''proftafla:hugvisindasvid'' = None"
    by (simp add: b px df)
  have d: "live (snd (clearCache sample_env ?w)) ''session:42'' = Some (Json (JStr ''abc''))"
    by (simp add: b px l2)
  from clearCache_plain_prefix [OF p, of "broken_world sample_page"] kb
  have e: "clearCache sample_env (broken_world sample_page)
       = (False, warn ''Unable to clear cache'' (broken_world sample_page))" by blast
  show ?thesis using p nk a l1 c d kb e by (intro conjI)
qed

subsection \<open>The second call\<close>

lemma jsonify_undefined: "jsonify v = JUndefined \<longleftrightarrow> v = JUndefined"
  by (cases v) (auto split: jsnum.splits)

lemma jsonify_idem:
  "jsonify (jsonify v) = jsonify v"
  "jsonify_elems (jsonify_elems xs) = jsonify_elems xs"
  "jsonify_props (jsonify_props ps) = jsonify_props ps"
  by (induction v and xs and ps rule: jsonify_jsonify_elems_jsonify_props.induct)
     (auto simp: jsonify_undefined split: jsnum.splits)

lemma jsonify_exact:
  "json_exact v \<Longrightarrow> jsonify v = v"
  "json_exact_elems xs \<Longrightarrow> jsonify_elems xs = xs"
  "json_exact_props ps \<Longrightarrow> jsonify_props ps = ps"
  by (induction v and xs and ps rule: jsonify_jsonify_elems_jsonify_props.induct)
     (auto split: jsnum.splits)

lemma stringify_jsonify: "JSON_stringify (jsonify v) = JSON_stringify v"
  by (simp add: JSON_stringify_def jsonify_undefined jsonify_idem)


text \<open>
  C5, as the claim reads, fails: a number that is not finite does not survive the text
  encoding. When the students cell of a row is not a number, the first call returns NaN
  for it; the cache is filled, the second call sends no request, and it returns
  \<^verbatim>\<open>null\<close> where the first call returned NaN.
\<close>

theorem unnumbered_counterexample:
  "live (snd (getTests sample_env ''hugvisindasvid'' (sample_world [] unnumbered_page)))
        (key_of sample_env ''hugvisindasvid'') \<noteq> None
   \<and> requests (snd (getTests sample_env ''hugvisindasvid''
                       (snd (getTests sample_env ''hugvisindasvid'' (sample_world [] unnumbered_page)))))
       = requests (snd (getTests sample_env ''hugvisindasvid'' (sample_world [] unnumbered_page)))
   \<and> fst (getTests sample_env ''hugvisindasvid''
             (snd (getTests sample_env ''hugvisindasvid'' (sample_world [] unnumbered_page))))
       \<noteq> fst (getTests sample_env ''hugvisindasvid'' (sample_world [] unnumbered_page))"
  by code_simp

text \<open>
  C5, amended. After a call for a known slug that missed the cache, fetched the data and
  stored it, a second call for the same slug before the entry expires returns the decoded
  entry and leaves the world as it is (no request is sent): the first result with every
  number that is not finite replaced by \<^verbatim>\<open>null\<close>. This has the same text encoding as
  the first result, and is the first result itself when all its numbers are finite.
\<close>

theorem second_call_from_cache:
  assumes "find (\<lambda>s. slug s = sl) schools = Some item"
    and "\<not> truthy (fst (getFromCache (key_of ev sl) w))"
    and "getTests ev sl w = (Inr data, w1)"
    and "\<not> set_fails w (key_of ev sl)"
    and "expire_seconds (REDIS_EXPIRE ev) = Some n"
    and "store w2 = store w1"
    and "now w2 < now w + n"
    and "\<not> get_fails w2 (key_of ev sl)"
  shows "getTests ev sl w2 = (Inr (jsonify data), w2)
    \<and> JSON_stringify (jsonify data) = JSON_stringify data
    \<and> (json_exact data \<longrightarrow> jsonify data = data)"
proof -
  let ?k = "key_of ev sl"
  let ?w0 = "snd (getFromCache ?k w)"
  obtain r wf where f: "fetchAndParse (id_num item) (name item) ?w0 = (r, wf)"
    by (cases "fetchAndParse (id_num item) (name item) ?w0") auto
  from getTests_miss [OF assms(1,2)] assms(3) f
  have r: "r = Inr data" and w1: "w1 = cache ev ?k data wf"
    by (cases r; simp)+
  from fetchAndParse_ok [OF f [unfolded r]] obtain ds where
    wf: "wf = ?w0\<lparr>requests := requests ?w0 @ [url_of (id_num item)]\<rparr>"
    and d: "data = JObj [(''heading'', JStr (name item)), (''departments'', JArr ds)]" by auto
  have sf: "\<not> set_fails wf ?k" using assms(4) by (simp add: wf getFromCache_keeps)
  have nw: "now wf = now w" by (simp add: wf getFromCache_keeps)
  have st: "store w1 = AList.update ?k (JSON_stringify data, now w + n) (store wf)"
    by (simp add: w1 cache_stores [OF sf assms(5)] nw)
  have "live w2 ?k = Some (JSON_stringify data)"
    using assms(7) by (simp add: live_def assms(6) st update_conv')
  then have l: "live w2 ?k = Some (Json (jsonify data))"
    by (simp add: JSON_stringify_def d)
  have c: "getFromCache ?k w2 = (jsonify data, w2)"
    using assms(8) l by (rule getFromCache_value)
  have t: "truthy (fst (getFromCache ?k w2))" by (simp add: c d)
  have "getTests ev sl w2 = (Inr (jsonify data), w2)"
    using getTests_hit [OF assms(1) t] by (simp add: c)
  then show ?thesis
    by (simp add: stringify_jsonify jsonify_exact)
qed

theorem second_call_from_cache_witness:
  "find (\<lambda>s. slug s = ''hugvisindasvid'') schools = Some (schools ! 2)
   \<and> \<not> truthy (fst (getFromCache (key_of sample_env ''hugvisindasvid'') (sample_world [] sample_page)))
   \<and> getTests sample_env ''hugvisindasvid'' (sample_world [] sample_page)
       = (Inr (sample_result (name (schools ! 2))), snd first_call)
   \<and> \<not> set_fails (sample_world [] sample_page) (key_of sample_env ''hugvisindasvid'')
   \<and> expire_seconds (REDIS_EXPIRE sample_env) = Some 60
   \<and> store later_world = store (snd first_call)
   \<and> now later_world < now (sample_world [] sample_page) + 60
   \<and> \<not> get_fails later_world (key_of sample_env ''hugvisindasvid'')
   \<and> json_exact (sample_result (name (schools ! 2)))
   \<and> getTests sample_env ''hugvisindasvid'' later_world
       = (Inr (sample_result (name (schools ! 2))), later_world)"
proof -
  let ?w = "sample_world [] sample_page" and ?k = "key_of sample_env ''hugvisindasvid''"
  let ?d = "sample_result (name (schools ! 2))"
  have f: "find (\<lambda>s. slug s = ''hugvisindasvid'') schools = Some (schools ! 2)"
    by (simp add: schools_def)
  have m: "\<not> truthy (fst (getFromCache ?k ?w))"
    by (simp add: getFromCache_def asyncGet_def sample_world_def live_def)
  have "fst first_call = Inr ?d" by code_simp
  then have g: "getTests sample_env ''hugvisindasvid'' ?w = (Inr ?d, snd first_call)"
    by (simp add: first_call_def prod_eq_iff)
  have sf: "\<not> set_fails ?w ?k" by (simp add: sample_world_def)
  have es: "expire_seconds (REDIS_EXPIRE sample_env) = Some 60"
    by (simp add: expire_seconds_def sample_env_def is_digit_def digit_val_def)
  have st: "store later_world = store (snd first_call)" by (simp add: later_world_def)
  have nw: "now later_world < now ?w + 60" by (simp add: later_world_def sample_world_def)
  have gf: "\<not> get_fails later_world ?k" by code_simp
  have ex: "json_exact ?d" by code_simp
  from second_call_from_cache [OF f m g sf es st nw gf] ex
  have "getTests sample_env ''hugvisindasvid'' later_world = (Inr ?d, later_world)"
    by simp
  with f m g sf es st nw gf ex show ?thesis by (intro conjI)
qed

subsection \<open>Parsing the page\<close>

































end
